theory Spec2Isabelle
  imports Complex_Main "HOL-Library.Log_Nat"
begin

section \<open>Data model\<close>

text \<open>
  The detection pipeline of the browser front end (\<^verbatim>\<open>mefront/src/lib\<close>). A TypeScript
  \<^verbatim>\<open>number\<close> that carries a coordinate, a size, an angle or a confidence is modelled as a
  \<^typ>\<open>real\<close>: the arithmetic of the source is read as exact arithmetic, and the rounding of
  IEEE doubles, NaN and the infinities are outside the model. Image dimensions and tile
  geometry are integers. The conversion \<^verbatim>\<open>pixelToGeo\<close> is given a second time in binary64
  arithmetic, for the identities between its results that rounding decides.
\<close>

text \<open>\<^verbatim>\<open>interface Detection\<close> of the module \<^verbatim>\<open>lib/types\<close>.\<close>

record Detection =
  classId :: nat
  className :: string
  confidence :: real
  cx :: real
  cy :: real
  width :: real
  height :: real
  angle :: real

text \<open>The \<^verbatim>\<open>{ x: number; y: number }\<close> objects of \<^verbatim>\<open>GeoTIFFMeta\<close> and \<^verbatim>\<open>pixelToGeo\<close>; the
  fields \<^verbatim>\<open>x\<close> and \<^verbatim>\<open>y\<close> are \<open>xc\<close> and \<open>yc\<close>.\<close>

record XY =
  xc :: real
  yc :: real

text \<open>\<^verbatim>\<open>interface GeoTIFFMeta\<close>; \<^verbatim>\<open>epsg: number | null\<close> is an option.\<close>

record GeoTIFFMeta =
  tiePoint :: XY
  pixelScale :: XY
  epsg :: "int option"

section \<open>Corners of an oriented box\<close>

text \<open>\<^verbatim>\<open>getOBBCorners\<close> of the module \<^verbatim>\<open>lib/obbUtils\<close>.\<close>

definition getOBBCorners :: "Detection \<Rightarrow> (real \<times> real) list" where
  "getOBBCorners d =
     (let c = cos (angle d);
          s = sin (angle d);
          hw = width d / 2;
          hh = height d / 2;
          corners = [(- hw, - hh), (hw, - hh), (hw, hh), (- hw, hh)]
      in map (\<lambda>(dx, dy). (cx d + dx * c - dy * s, cy d + dx * s + dy * c)) corners)"

section \<open>Pixel to geographic coordinates\<close>

text \<open>\<^verbatim>\<open>pixelToGeo\<close> of the module \<^verbatim>\<open>lib/geotiff\<close>.\<close>

definition pixelToGeo :: "real \<Rightarrow> real \<Rightarrow> GeoTIFFMeta \<Rightarrow> XY" where
  "pixelToGeo px py meta =
     \<lparr> xc = xc (tiePoint meta) + px * xc (pixelScale meta),
       yc = yc (tiePoint meta) - py * yc (pixelScale meta) \<rparr>"

section \<open>Mapping tile-local detections back to the image\<close>

text \<open>\<^verbatim>\<open>mapDetectionsToOriginal\<close> of the module \<^verbatim>\<open>lib/inference\<close>; the spread \<^verbatim>\<open>...d\<close> keeps the
  fields that are not listed.\<close>

definition mapDetectionsToOriginal ::
  "Detection list \<Rightarrow> real \<Rightarrow> real \<Rightarrow> real \<Rightarrow> real \<Rightarrow> real \<Rightarrow> Detection list" where
  "mapDetectionsToOriginal detections scale padX padY tileOffsetX tileOffsetY =
     map (\<lambda>d. d\<lparr> cx := (cx d - padX) / scale + tileOffsetX,
                 cy := (cy d - padY) / scale + tileOffsetY,
                 width := width d / scale,
                 height := height d / scale \<rparr>) detections"

section \<open>Non-maximum suppression of oriented boxes\<close>

text \<open>\<^verbatim>\<open>nmsOBB\<close> and \<^verbatim>\<open>computeAABBIoU\<close> of the module \<^verbatim>\<open>lib/inference\<close>. The local array
  \<^verbatim>\<open>sorted\<close> is \<open>sortedDets\<close> here.\<close>

text \<open>
  \<^verbatim>\<open>computeAABBIoU\<close>: each box is replaced by the square of side
  \<^verbatim>\<open>max(width, height)\<close> about its centre.
\<close>

definition computeAABBIoU :: "Detection \<Rightarrow> Detection \<Rightarrow> real" where
  "computeAABBIoU a b =
     (let aHalfW = max (width a) (height a) / 2;
          aHalfH = aHalfW;
          bHalfW = max (width b) (height b) / 2;
          bHalfH = bHalfW;
          ax1 = cx a - aHalfW;
          ay1 = cy a - aHalfH;
          ax2 = cx a + aHalfW;
          ay2 = cy a + aHalfH;
          bx1 = cx b - bHalfW;
          by1 = cy b - bHalfH;
          bx2 = cx b + bHalfW;
          by2 = cy b + bHalfH;
          ix1 = max ax1 bx1;
          iy1 = max ay1 by1;
          ix2 = min ax2 bx2;
          iy2 = min ay2 by2;
          iw = max 0 (ix2 - ix1);
          ih = max 0 (iy2 - iy1);
          intersection = iw * ih;
          aArea = (ax2 - ax1) * (ay2 - ay1);
          bArea = (bx2 - bx1) * (by2 - by1);
          union = aArea + bArea - intersection
      in if union > 0 then intersection / union else 0)"

text \<open>
  The inner loop of \<^verbatim>\<open>nmsOBB\<close>, one iteration for index \<open>j\<close>: the three guards of the
  source in their order, then the insertion into the \<^verbatim>\<open>suppressed\<close> set.
\<close>

definition nmsInnerStep :: "Detection list \<Rightarrow> real \<Rightarrow> nat \<Rightarrow> nat \<Rightarrow> nat set \<Rightarrow> nat set" where
  "nmsInnerStep sortedDets iouThreshold i j suppressed =
     (if j \<in> suppressed then suppressed
      else if classId (sortedDets ! i) \<noteq> classId (sortedDets ! j) then suppressed
      else if computeAABBIoU (sortedDets ! i) (sortedDets ! j) > iouThreshold then insert j suppressed
      else suppressed)"

definition nmsInner :: "Detection list \<Rightarrow> real \<Rightarrow> nat \<Rightarrow> nat set \<Rightarrow> nat set" where
  "nmsInner sortedDets iouThreshold i suppressed =
     fold (nmsInnerStep sortedDets iouThreshold i) [i + 1 ..< length sortedDets] suppressed"

text \<open>The outer loop, one iteration for index \<open>i\<close>, on the pair (\<^verbatim>\<open>keep\<close>, \<^verbatim>\<open>suppressed\<close>).\<close>

definition nmsOuterStep ::
  "Detection list \<Rightarrow> real \<Rightarrow> nat \<Rightarrow> Detection list \<times> nat set \<Rightarrow> Detection list \<times> nat set" where
  "nmsOuterStep sortedDets iouThreshold i st =
     (case st of (keep, suppressed) \<Rightarrow>
        if i \<in> suppressed then (keep, suppressed)
        else (keep @ [sortedDets ! i], nmsInner sortedDets iouThreshold i suppressed))"

text \<open>
  \<^verbatim>\<open>[...detections].sort((a, b) => b.confidence - a.confidence)\<close>: the sort of the
  language is stable, as is \<^const>\<open>sort_key\<close>; descending confidence is ascending negated
  confidence.
\<close>

definition sortByConfidence :: "Detection list \<Rightarrow> Detection list" where
  "sortByConfidence detections = sort_key (\<lambda>d. - confidence d) detections"

definition nmsOBB :: "Detection list \<Rightarrow> real \<Rightarrow> Detection list" where
  "nmsOBB detections iouThreshold =
     (if length detections = 0 then []
      else let sortedDets = sortByConfidence detections
           in fst (fold (nmsOuterStep sortedDets iouThreshold) [0 ..< length sortedDets] ([], {})))"

section \<open>Merging two geo-referenced detection sets\<close>

text \<open>\<^verbatim>\<open>mergeGeoTIFFDetections\<close>, \<^verbatim>\<open>computePolygonIoU\<close> and \<^verbatim>\<open>getAABB\<close> of the module
  \<^verbatim>\<open>lib/exportResults\<close>.\<close>

record AABB =
  minX :: real
  minY :: real
  maxX :: real
  maxY :: real

text \<open>
  \<^verbatim>\<open>getAABB\<close> seeds its reduction with \<^verbatim>\<open>Number.POSITIVE_INFINITY\<close> and
  \<^verbatim>\<open>Number.NEGATIVE_INFINITY\<close>. After the first corner the four bounds are that corner's
  coordinates, so on a non-empty list the reduction is the one seeded with the first corner.
  On the empty list the source returns the infinite seed; that box is \<open>None\<close> here.
\<close>

definition getAABBStep :: "XY \<Rightarrow> AABB \<Rightarrow> AABB" where
  "getAABBStep corner box =
     \<lparr> minX = min (minX box) (xc corner), minY = min (minY box) (yc corner),
       maxX = max (maxX box) (xc corner), maxY = max (maxY box) (yc corner) \<rparr>"

fun getAABB :: "XY list \<Rightarrow> AABB option" where
  "getAABB [] = None"
| "getAABB (c # cs) =
     Some (fold getAABBStep cs \<lparr> minX = xc c, minY = yc c, maxX = xc c, maxY = yc c \<rparr>)"

text \<open>
  \<^verbatim>\<open>computePolygonIoU\<close>. With an infinite seed box for an empty corner list the source
  computes an intersection of 0 and an infinite union, hence 0; that is the last case.
\<close>

definition computePolygonIoU :: "XY list \<Rightarrow> XY list \<Rightarrow> real" where
  "computePolygonIoU corners1 corners2 =
     (case (getAABB corners1, getAABB corners2) of
        (Some box1, Some box2) \<Rightarrow>
          (let ix1 = max (minX box1) (minX box2);
               iy1 = max (minY box1) (minY box2);
               ix2 = min (maxX box1) (maxX box2);
               iy2 = min (maxY box1) (maxY box2);
               iw = max 0 (ix2 - ix1);
               ih = max 0 (iy2 - iy1);
               intersection = iw * ih;
               area1 = (maxX box1 - minX box1) * (maxY box1 - minY box1);
               area2 = (maxX box2 - minX box2) * (maxY box2 - minY box2);
               union = area1 + area2 - intersection
           in if union > 0 then intersection / union else 0)
      | _ \<Rightarrow> 0)"

text \<open>The elements of \<^verbatim>\<open>geoDetections1\<close> and \<^verbatim>\<open>geoDetections2\<close>.\<close>

record GeoDetection =
  detection :: Detection
  geoCorners :: "XY list"

definition toGeoDetection :: "GeoTIFFMeta \<Rightarrow> Detection \<Rightarrow> GeoDetection" where
  "toGeoDetection meta d =
     \<lparr> detection = d,
       geoCorners = map (\<lambda>(px, py). pixelToGeo px py meta) (getOBBCorners d) \<rparr>"

text \<open>
  The inner loop over \<open>j\<close> of \<^verbatim>\<open>mergeGeoTIFFDetections\<close>: it leaves at the first index whose
  entry of \<^verbatim>\<open>geoDetections1\<close> has the class of the candidate and an IoU above the
  threshold. The result is that index, or \<open>None\<close> when the loop runs to its end
  (\<^verbatim>\<open>isDuplicate\<close> stays false). The last argument is the index of the head of the list.
\<close>

fun findDuplicate :: "GeoDetection \<Rightarrow> GeoDetection list \<Rightarrow> real \<Rightarrow> nat \<Rightarrow> nat option" where
  "findDuplicate g2 [] iouThreshold j = None"
| "findDuplicate g2 (g1 # rest) iouThreshold j =
     (if classId (detection g2) \<noteq> classId (detection g1)
      then findDuplicate g2 rest iouThreshold (Suc j)
      else if computePolygonIoU (geoCorners g2) (geoCorners g1) > iouThreshold
      then Some j
      else findDuplicate g2 rest iouThreshold (Suc j))"

text \<open>
  One iteration of the outer loop on the array \<^verbatim>\<open>merged\<close>: the confidence of the candidate
  is compared with the confidence of \<^verbatim>\<open>geoDetections1[j].detection\<close>, and the write goes to
  \<^verbatim>\<open>merged[j]\<close>.
\<close>

definition mergeStep :: "GeoDetection list \<Rightarrow> real \<Rightarrow> GeoDetection \<Rightarrow> Detection list \<Rightarrow> Detection list" where
  "mergeStep geoDetections1 iouThreshold g2 merged =
     (case findDuplicate g2 geoDetections1 iouThreshold 0 of
        None \<Rightarrow> merged @ [detection g2]
      | Some j \<Rightarrow>
          if confidence (detection g2) > confidence (detection (geoDetections1 ! j))
          then merged[j := detection g2]
          else merged)"

definition mergeGeoTIFFDetections ::
  "Detection list \<Rightarrow> GeoTIFFMeta \<Rightarrow> Detection list \<Rightarrow> GeoTIFFMeta \<Rightarrow> real \<Rightarrow> Detection list" where
  "mergeGeoTIFFDetections detections1 meta1 detections2 meta2 iouThreshold =
     (let geoDetections1 = map (toGeoDetection meta1) detections1;
          geoDetections2 = map (toGeoDetection meta2) detections2;
          merged = detections1
      in fold (mergeStep geoDetections1 iouThreshold) geoDetections2 merged)"

section \<open>Tile plan of the slice inference\<close>

text \<open>The tile arithmetic of \<^verbatim>\<open>runInference\<close> (module \<^verbatim>\<open>lib/inference\<close>). An image side
  (\<^verbatim>\<open>imgWidth\<close> or \<^verbatim>\<open>imgHeight\<close>) is \<open>imgDim\<close> where one definition serves both axes.\<close>

definition SLICE_THRESHOLD :: int where
  "SLICE_THRESHOLD = 1280"

definition TILE_OVERLAP :: real where
  "TILE_OVERLAP = 0.25"

text \<open>\<^verbatim>\<open>Math.round\<close> rounds to the nearest integer, a half upwards.\<close>

definition jsRound :: "real \<Rightarrow> int" where
  "jsRound r = \<lfloor>r + 1 / 2\<rfloor>"

definition tileStride :: "int \<Rightarrow> int" where
  "tileStride tileSize = jsRound (of_int tileSize * (1 - TILE_OVERLAP))"

definition tileCount :: "int \<Rightarrow> int \<Rightarrow> int" where
  "tileCount tileSize imgDim =
     max 1 (\<lceil>of_int (imgDim - tileSize) / (of_int (tileStride tileSize) :: real)\<rceil> + 1)"

definition tileOrigin :: "int \<Rightarrow> int \<Rightarrow> int \<Rightarrow> int" where
  "tileOrigin tileSize imgDim t = min (t * tileStride tileSize) (imgDim - tileSize)"

definition tileExtent :: "int \<Rightarrow> int \<Rightarrow> int \<Rightarrow> int" where
  "tileExtent tileSize imgDim origin = min tileSize (imgDim - origin)"

text \<open>The arguments \<^verbatim>\<open>(sx, sy, sw, sh)\<close> of one call of \<^verbatim>\<open>prepareTile\<close>.\<close>

record Tile =
  sx :: int
  sy :: int
  sw :: int
  sh :: int

definition sliceTile :: "int \<Rightarrow> int \<Rightarrow> int \<Rightarrow> int \<Rightarrow> int \<Rightarrow> Tile" where
  "sliceTile tileSize imgWidth imgHeight ty tx =
     (let x0 = tileOrigin tileSize imgWidth tx;
          y0 = tileOrigin tileSize imgHeight ty
      in \<lparr> sx = x0, sy = y0,
           sw = tileExtent tileSize imgWidth x0,
           sh = tileExtent tileSize imgHeight y0 \<rparr>)"

text \<open>
  The sequence of tiles that \<^verbatim>\<open>runInference\<close> hands to \<^verbatim>\<open>prepareTile\<close>, in the order of the
  calls: one tile for an image within the slice threshold, otherwise the rows \<open>ty\<close> of the
  grid, each with its columns \<open>tx\<close>. The model input size \<^verbatim>\<open>MODEL_INPUT_SIZE\<close> is the first
  argument.
\<close>

definition tilePlan :: "int \<Rightarrow> int \<Rightarrow> int \<Rightarrow> Tile list" where
  "tilePlan tileSize imgWidth imgHeight =
     (if imgWidth \<le> SLICE_THRESHOLD \<and> imgHeight \<le> SLICE_THRESHOLD
      then [\<lparr> sx = 0, sy = 0, sw = imgWidth, sh = imgHeight \<rparr>]
      else concat (map (\<lambda>ty. map (\<lambda>tx. sliceTile tileSize imgWidth imgHeight ty tx)
                                 [0 .. tileCount tileSize imgWidth - 1])
                       [0 .. tileCount tileSize imgHeight - 1]))"

section \<open>Pixel to geographic coordinates in binary64 arithmetic\<close>

text \<open>
  \<^verbatim>\<open>pixelToGeo\<close> once more, in the arithmetic the program runs in. A \<^verbatim>\<open>number\<close> is a binary64
  value: a finite one (\<open>Num v\<close>, with \<open>v\<close> one of the reals that the format holds), an
  infinity or NaN. The two zeros are one value \<open>Num 0\<close>; \<^verbatim>\<open>+\<close>, \<^verbatim>\<open>-\<close> and \<^verbatim>\<open>*\<close> tell
  them apart only in the sign of a zero result.
\<close>

datatype num64 = Num real | PosInf | NegInf | NaN

text \<open>Powers of two with an integer exponent.\<close>

definition pow2 :: "int \<Rightarrow> real" where
  "pow2 e = (if 0 \<le> e then 2 ^ nat e else 1 / 2 ^ nat (- e))"

text \<open>The exponent of a positive real: the \<open>k\<close> with \<open>2^k \<le> a < 2^(k+1)\<close>, computed
  from the bit length of an integer (\<open>floorLog2_eq\<close> below proves that it is the floor of the
  binary logarithm).\<close>

definition floorLog2 :: "real \<Rightarrow> int" where
  "floorLog2 a = (if 1 \<le> a then bitlen \<lfloor>a\<rfloor> - 1 else - bitlen (\<lceil>1 / a\<rceil> - 1))"

text \<open>The nearest integer, a tie going to the even neighbour.\<close>

definition roundHalfEven :: "real \<Rightarrow> int" where
  "roundHalfEven r =
     (let f = \<lfloor>r\<rfloor>
      in if r - of_int f < 1 / 2 then f
         else if 1 / 2 < r - of_int f then f + 1
         else if even f then f else f + 1)"

text \<open>The spacing of the binary64 values around \<open>v\<close>, as an exponent of two: 53
  significant bits, and never below the spacing \<open>2^-1074\<close> of the subnormal numbers.\<close>

definition quantum :: "real \<Rightarrow> int" where
  "quantum v = max (- 1074) (floorLog2 \<bar>v\<bar> - 52)"

text \<open>Rounding to nearest, ties to even; a result of magnitude \<open>2^1024\<close> or more is an
  infinity.\<close>

definition round64 :: "real \<Rightarrow> num64" where
  "round64 v =
     (if v = 0 then Num 0
      else let q = quantum v;
               r = of_int (roundHalfEven (v / pow2 q)) * pow2 q
           in if pow2 1024 \<le> \<bar>r\<bar> then (if 0 < v then PosInf else NegInf) else Num r)"

text \<open>\<open>v\<close> is a binary64 value: rounding leaves it as it is.\<close>

definition exact64 :: "real \<Rightarrow> bool" where
  "exact64 v \<longleftrightarrow> round64 v = Num v"

text \<open>Negation, \<^verbatim>\<open>+\<close>, \<^verbatim>\<open>-\<close> and \<^verbatim>\<open>*\<close> of the language: the exact result, rounded, with the
  rules of the format for infinities and NaN.\<close>

fun neg64 :: "num64 \<Rightarrow> num64" where
  "neg64 (Num a) = Num (- a)"
| "neg64 PosInf = NegInf"
| "neg64 NegInf = PosInf"
| "neg64 NaN = NaN"

fun add64 :: "num64 \<Rightarrow> num64 \<Rightarrow> num64" where
  "add64 NaN b = NaN"
| "add64 a NaN = NaN"
| "add64 (Num a) (Num b) = round64 (a + b)"
| "add64 PosInf NegInf = NaN"
| "add64 NegInf PosInf = NaN"
| "add64 PosInf b = PosInf"
| "add64 a PosInf = PosInf"
| "add64 NegInf b = NegInf"
| "add64 a NegInf = NegInf"

definition sub64 :: "num64 \<Rightarrow> num64 \<Rightarrow> num64" where
  "sub64 a b = add64 a (neg64 b)"

fun mul64 :: "num64 \<Rightarrow> num64 \<Rightarrow> num64" where
  "mul64 NaN b = NaN"
| "mul64 a NaN = NaN"
| "mul64 (Num a) (Num b) = round64 (a * b)"
| "mul64 (Num a) PosInf = (if a = 0 then NaN else if 0 < a then PosInf else NegInf)"
| "mul64 (Num a) NegInf = (if a = 0 then NaN else if 0 < a then NegInf else PosInf)"
| "mul64 PosInf (Num b) = (if b = 0 then NaN else if 0 < b then PosInf else NegInf)"
| "mul64 NegInf (Num b) = (if b = 0 then NaN else if 0 < b then NegInf else PosInf)"
| "mul64 PosInf PosInf = PosInf"
| "mul64 PosInf NegInf = NegInf"
| "mul64 NegInf PosInf = NegInf"
| "mul64 NegInf NegInf = PosInf"

text \<open>The objects \<^verbatim>\<open>{ x, y }\<close> and \<^verbatim>\<open>GeoTIFFMeta\<close> with binary64 fields.\<close>

record XY64 =
  xc64 :: num64
  yc64 :: num64

record GeoTIFFMeta64 =
  tiePoint64 :: XY64
  pixelScale64 :: XY64
  epsg64 :: "int option"

definition pixelToGeo64 :: "num64 \<Rightarrow> num64 \<Rightarrow> GeoTIFFMeta64 \<Rightarrow> XY64" where
  "pixelToGeo64 px py meta =
     \<lparr> xc64 = add64 (xc64 (tiePoint64 meta)) (mul64 px (xc64 (pixelScale64 meta))),
       yc64 = sub64 (yc64 (tiePoint64 meta)) (mul64 py (yc64 (pixelScale64 meta))) \<rparr>"

section \<open>The two array functions on an explicit store\<close>

text \<open>
  \<^verbatim>\<open>nmsOBB\<close> and \<^verbatim>\<open>mergeGeoTIFFDetections\<close> receive references to arrays, copy them with a
  spread (\<^verbatim>\<open>[...detections]\<close>, \<^verbatim>\<open>[...detections1]\<close>), and then sort, index-assign and push.
  To say which arrays these writes reach, the same two functions are given once more on a
  store of arrays: an argument is the address of an array, a spread or an array literal
  allocates a fresh address, and \<^verbatim>\<open>sort\<close>, \<^verbatim>\<open>merged[j] = ...\<close> and \<^verbatim>\<open>push\<close> update the
  array at an address.
\<close>

record Store =
  arrays :: "nat \<Rightarrow> Detection list"
  allocated :: nat

definition newArray :: "Detection list \<Rightarrow> Store \<Rightarrow> nat \<times> Store" where
  "newArray elems s =
     (allocated s, s\<lparr> arrays := (arrays s)(allocated s := elems), allocated := Suc (allocated s) \<rparr>)"

definition sortInPlace :: "nat \<Rightarrow> Store \<Rightarrow> Store" where
  "sortInPlace a s = s\<lparr> arrays := (arrays s)(a := sortByConfidence (arrays s a)) \<rparr>"

definition push :: "nat \<Rightarrow> Detection \<Rightarrow> Store \<Rightarrow> Store" where
  "push a d s = s\<lparr> arrays := (arrays s)(a := arrays s a @ [d]) \<rparr>"

text \<open>
  \<^verbatim>\<open>arr[j] = d\<close>. The only index assignment of the source, \<^verbatim>\<open>merged[j] = detections2[i]\<close>,
  has \<open>j\<close> below the length of \<^verbatim>\<open>geoDetections1\<close>, which is at most the length of
  \<^verbatim>\<open>merged\<close>; the write is within the array.
\<close>

definition assignIndex :: "nat \<Rightarrow> nat \<Rightarrow> Detection \<Rightarrow> Store \<Rightarrow> Store" where
  "assignIndex a j d s = s\<lparr> arrays := (arrays s)(a := (arrays s a)[j := d]) \<rparr>"

definition nmsOuterStepSt ::
  "nat \<Rightarrow> nat \<Rightarrow> real \<Rightarrow> nat \<Rightarrow> Store \<times> nat set \<Rightarrow> Store \<times> nat set" where
  "nmsOuterStepSt sortedA keepA iouThreshold i st =
     (case st of (s, suppressed) \<Rightarrow>
        if i \<in> suppressed then (s, suppressed)
        else (push keepA (arrays s sortedA ! i) s,
              nmsInner (arrays s sortedA) iouThreshold i suppressed))"

definition nmsOBBSt :: "nat \<Rightarrow> real \<Rightarrow> Store \<Rightarrow> nat \<times> Store" where
  "nmsOBBSt detectionsA iouThreshold s =
     (if length (arrays s detectionsA) = 0 then newArray [] s
      else
        let (sortedA, s1) = newArray (arrays s detectionsA) s;
            s2 = sortInPlace sortedA s1;
            (keepA, s3) = newArray [] s2;
            (s4, suppressed) =
               fold (nmsOuterStepSt sortedA keepA iouThreshold)
                 [0 ..< length (arrays s3 sortedA)] (s3, {})
        in (keepA, s4))"

definition mergeStepSt ::
  "GeoDetection list \<Rightarrow> real \<Rightarrow> nat \<Rightarrow> GeoDetection \<Rightarrow> Store \<Rightarrow> Store" where
  "mergeStepSt geoDetections1 iouThreshold mergedA g2 s =
     (case findDuplicate g2 geoDetections1 iouThreshold 0 of
        None \<Rightarrow> push mergedA (detection g2) s
      | Some j \<Rightarrow>
          if confidence (detection g2) > confidence (detection (geoDetections1 ! j))
          then assignIndex mergedA j (detection g2) s
          else s)"

definition mergeGeoTIFFDetectionsSt ::
  "nat \<Rightarrow> GeoTIFFMeta \<Rightarrow> nat \<Rightarrow> GeoTIFFMeta \<Rightarrow> real \<Rightarrow> Store \<Rightarrow> nat \<times> Store" where
  "mergeGeoTIFFDetectionsSt detections1A meta1 detections2A meta2 iouThreshold s =
     (let geoDetections1 = map (toGeoDetection meta1) (arrays s detections1A);
          geoDetections2 = map (toGeoDetection meta2) (arrays s detections2A);
          (mergedA, s1) = newArray (arrays s detections1A) s
      in (mergedA, fold (mergeStepSt geoDetections1 iouThreshold mergedA) geoDetections2 s1))"

section \<open>Notions used in the proofs\<close>

text \<open>\<open>d\<close> suppresses \<open>e\<close>: the two tests of the inner loop of \<^verbatim>\<open>nmsOBB\<close> that lead to the
  insertion into \<^verbatim>\<open>suppressed\<close>.\<close>

definition suppresses :: "real \<Rightarrow> Detection \<Rightarrow> Detection \<Rightarrow> bool" where
  "suppresses iouThreshold d e \<longleftrightarrow>
     classId d = classId e \<and> computeAABBIoU d e > iouThreshold"

text \<open>The two loops of \<^verbatim>\<open>nmsOBB\<close> as one recursion on the sorted list; \<open>nmsOBB_greedy\<close> below
  proves that the loops compute it.\<close>

fun nmsGreedy :: "real \<Rightarrow> Detection list \<Rightarrow> Detection list" where
  "nmsGreedy iouThreshold [] = []"
| "nmsGreedy iouThreshold (d # rest) =
     d # nmsGreedy iouThreshold (filter (\<lambda>e. \<not> suppresses iouThreshold d e) rest)"

text \<open>The entries from index \<open>i\<close> on whose index is not in the set \<open>S\<close>.\<close>

definition alive :: "Detection list \<Rightarrow> nat set \<Rightarrow> nat \<Rightarrow> Detection list" where
  "alive xs S i = map ((!) xs) (filter (\<lambda>j. j \<notin> S) [i ..< length xs])"

section \<open>Verified properties\<close>

subsection \<open>Pixel to geographic coordinates\<close>

lemmas round64_eval =
  round64_def quantum_def floorLog2_def compute_bitlen pow2_def roundHalfEven_def Let_def

lemma lit01: "round64 (1 / 10) = Num (3602879701896397 / 36028797018963968)"
  by (simp add: round64_eval)
lemma lit02: "round64 (2 / 10) = Num (3602879701896397 / 18014398509481984)"
  by (simp add: round64_eval)
lemma lit03: "round64 (3 / 10) = Num (5404319552844595 / 18014398509481984)"
  by (simp add: round64_eval)

lemma roundHalfEven_nearest: "\<bar>of_int (roundHalfEven r) - r\<bar> \<le> 1 / 2"
proof -
  have "of_int \<lfloor>r\<rfloor> \<le> r" and "r < of_int \<lfloor>r\<rfloor> + 1" by linarith+
  then show ?thesis
    by (auto simp: roundHalfEven_def Let_def abs_le_iff)
qed

lemma roundHalfEven_of_int: "roundHalfEven (of_int n) = n"
  by (simp add: roundHalfEven_def)

lemma powr2_int_nonneg: "2 powr real_of_int (int k) = (2::real) ^ k"
  by (simp add: powr_realpow)

lemma powr2_int_Suc: "2 powr real_of_int (int k + 1) = (2::real) ^ Suc k"
  using powr2_int_nonneg [of "Suc k"] by (simp add: add.commute)

lemma powr2_int_neg_Suc: "2 powr real_of_int (- int (Suc k)) = 1 / (2::real) ^ Suc k"
  using powr2_int_nonneg [of "Suc k"] powr_minus [of 2 "real_of_int (int (Suc k))"]
  by (simp add: inverse_eq_divide)

lemma powr2_int_neg: "2 powr real_of_int (- int (Suc k) + 1) = 1 / (2::real) ^ k"
proof -
  have "- int (Suc k) + 1 = - int k" by simp
  then have "2 powr real_of_int (- int (Suc k) + 1) = 2 powr (- real_of_int (int k))"
    by simp
  also have "\<dots> = inverse (2 powr real_of_int (int k))" by (rule powr_minus)
  also have "\<dots> = 1 / (2::real) ^ k" by (simp add: powr_realpow inverse_eq_divide)
  finally show ?thesis .
qed

lemma bitlen_pos_bounds:
  assumes "0 < n"
  obtains k :: nat where "bitlen n = int k + 1" and "2 ^ k \<le> n" and "n < 2 ^ Suc k"
proof -
  have k1: "1 \<le> bitlen n" using assms by (simp add: bitlen_alt_def)
  let ?k = "nat (bitlen n - 1)"
  have e: "bitlen n = int ?k + 1" using k1 by simp
  have s: "nat (bitlen n) = Suc ?k" using k1 by simp
  have "2 ^ ?k \<le> n" and "n < 2 ^ Suc ?k"
    using bitlen_bounds [OF assms] s by simp_all
  with e show ?thesis by (rule that)
qed

lemma floorLog2_eq:
  assumes "0 < a"
  shows "floorLog2 a = \<lfloor>log 2 a\<rfloor>"
proof (cases "1 \<le> a")
  case True
  let ?n = "\<lfloor>a\<rfloor>"
  have n: "0 < ?n" using True by simp
  obtain k :: nat where k: "bitlen ?n = int k + 1" and b1: "2 ^ k \<le> ?n" and b2: "?n < 2 ^ Suc k"
    using bitlen_pos_bounds [OF n] by blast
  have lo: "2 ^ k \<le> a"
  proof -
    have "(2::real) ^ k = of_int (2 ^ k)" by simp
    also have "\<dots> \<le> of_int ?n" using b1 by (simp only: of_int_le_iff)
    also have "\<dots> \<le> a" by simp
    finally show ?thesis .
  qed
  have hi: "a < 2 ^ Suc k"
  proof -
    have "?n + 1 \<le> 2 ^ Suc k" using b2 by simp
    then have "of_int (?n + 1) \<le> (of_int (2 ^ Suc k) :: real)" by (simp only: of_int_le_iff)
    then have A: "of_int ?n + 1 \<le> (2::real) ^ Suc k" by simp
    have B: "a < of_int ?n + 1" by linarith
    show ?thesis by (rule less_le_trans [OF B A])
  qed
  have "2 powr real_of_int (int k) \<le> a \<and> a < 2 powr real_of_int (int k + 1)"
    using lo hi by (simp only: powr2_int_nonneg powr2_int_Suc)
  then have "\<lfloor>log 2 a\<rfloor> = int k"
    using floor_log_eq_powr_iff [of a 2 "int k"] assms by simp
  then show ?thesis using True k by (simp add: floorLog2_def)
next
  case False
  let ?y = "1 / a"
  let ?m = "\<lceil>?y\<rceil>"
  have y: "1 < ?y" using False assms by simp
  then have m2: "2 \<le> ?m" by linarith
  then have m1: "0 < ?m - 1" by simp
  obtain k :: nat where k: "bitlen (?m - 1) = int k + 1"
      and b1: "2 ^ k \<le> ?m - 1" and b2: "?m - 1 < 2 ^ Suc k"
    using bitlen_pos_bounds [OF m1] by blast
  have ylo: "2 ^ k < ?y"
  proof -
    have "(2::real) ^ k = of_int (2 ^ k)" by simp
    also have "\<dots> \<le> of_int (?m - 1)" using b1 by (simp only: of_int_le_iff)
    also have "\<dots> < ?y" by linarith
    finally show ?thesis .
  qed
  have yhi: "?y \<le> 2 ^ Suc k"
  proof -
    have "?m \<le> 2 ^ Suc k" using b2 by simp
    then have "of_int ?m \<le> (of_int (2 ^ Suc k) :: real)" by (simp only: of_int_le_iff)
    then have A: "of_int ?m \<le> (2::real) ^ Suc k" by simp
    have B: "?y \<le> of_int ?m" by linarith
    show ?thesis by (rule order_trans [OF B A])
  qed
  have p: "(0::real) < 2 ^ k" "(0::real) < 2 ^ Suc k" by simp_all
  have alo: "1 / 2 ^ Suc k \<le> a"
    using yhi assms p(2) by (simp add: field_simps)
  have ahi: "a < 1 / 2 ^ k"
    using ylo assms p(1) by (simp add: field_simps)
  have "2 powr real_of_int (- int (Suc k)) \<le> a \<and> a < 2 powr real_of_int (- int (Suc k) + 1)"
    using alo ahi by (simp only: powr2_int_neg_Suc powr2_int_neg)
  then have "\<lfloor>log 2 a\<rfloor> = - int (Suc k)"
    using floor_log_eq_powr_iff [of a 2 "- int (Suc k)"] assms by simp
  then show ?thesis using False k by (simp add: floorLog2_def)
qed

lemma pow2_pos: "0 < pow2 e"
  by (simp add: pow2_def)

lemma round64_nearest:
  assumes "round64 v = Num r"
  shows "\<bar>r - v\<bar> \<le> pow2 (quantum v) / 2"
proof (cases "v = 0")
  case True
  then show ?thesis using assms pow2_pos [of "quantum 0"] by (simp add: round64_def)
next
  case False
  let ?P = "pow2 (quantum v)"
  have P: "0 < ?P" by (rule pow2_pos)
  have r: "r = of_int (roundHalfEven (v / ?P)) * ?P"
    using assms False by (simp add: round64_def Let_def split: if_splits)
  have "\<bar>r - v\<bar> = \<bar>of_int (roundHalfEven (v / ?P)) - v / ?P\<bar> * ?P"
    using P by (simp add: r abs_mult [symmetric] field_simps)
  also have "\<dots> \<le> 1 / 2 * ?P"
    using roundHalfEven_nearest [of "v / ?P"] P by (intro mult_right_mono) simp_all
  finally show ?thesis by simp
qed

lemma exact64_two_53: "exact64 9007199254740992" and exact64_minus_two_53: "exact64 (- 9007199254740992)"
  by (simp_all add: exact64_def round64_eval)

lemma exact64_of_int:
  assumes "\<bar>n\<bar> \<le> 2 ^ 53"
  shows "exact64 (of_int n)"
proof (cases "n = 0")
  case True
  then show ?thesis by (simp add: exact64_def round64_def)
next
  case False
  let ?v = "of_int n :: real"
  have pos: "0 < \<bar>n\<bar>" using False by simp
  have abs1: "1 \<le> \<bar>?v\<bar>" using False by (simp add: of_int_abs [symmetric] del: of_int_abs)
  have fl: "\<lfloor>\<bar>?v\<bar>\<rfloor> = \<bar>n\<bar>" by (simp add: of_int_abs [symmetric] del: of_int_abs)
  have L: "floorLog2 \<bar>?v\<bar> = bitlen \<bar>n\<bar> - 1"
    using abs1 by (simp only: floorLog2_def fl if_True)
  have b1: "1 \<le> bitlen \<bar>n\<bar>" using pos by (simp add: bitlen_alt_def)
  have "\<bar>n\<bar> < 2 ^ nat 54" using assms by simp
  then have b54: "bitlen \<bar>n\<bar> \<le> 54" by (simp add: bitlen_le_iff_power)
  have q: "quantum ?v = bitlen \<bar>n\<bar> - 53" using b1 by (simp add: quantum_def L)
  have big: "\<bar>?v\<bar> < pow2 1024"
  proof -
    have "\<bar>?v\<bar> \<le> 2 ^ 53" using assms by (simp add: of_int_abs [symmetric] del: of_int_abs)
    also have "\<dots> < (2::real) ^ 1024" by (intro power_strict_increasing) simp_all
    finally show ?thesis by (simp add: pow2_def)
  qed
  show ?thesis
  proof (cases "bitlen \<bar>n\<bar> \<le> 53")
    case True
    let ?k = "nat (53 - bitlen \<bar>n\<bar>)"
    have P: "pow2 (quantum ?v) = 1 / 2 ^ ?k"
      using True by (cases "bitlen \<bar>n\<bar> = 53") (simp_all add: pow2_def q)
    have "?v / pow2 (quantum ?v) = of_int (n * 2 ^ ?k)" by (simp add: P)
    then have "roundHalfEven (?v / pow2 (quantum ?v)) = n * 2 ^ ?k"
      by (simp only: roundHalfEven_of_int)
    then have "of_int (roundHalfEven (?v / pow2 (quantum ?v))) * pow2 (quantum ?v) = ?v"
      by (simp add: P)
    then show ?thesis
      using False big by (simp add: exact64_def round64_def Let_def)
  next
    case f: False
    with b54 have "bitlen \<bar>n\<bar> = 54" by simp
    then have "2 ^ 53 \<le> \<bar>n\<bar>" using bitlen_bounds [OF pos] by simp
    with assms have "\<bar>n\<bar> = 2 ^ 53" by simp
    then have "\<bar>n\<bar> = 9007199254740992" by simp
    then have "n = 9007199254740992 \<or> n = - 9007199254740992" by linarith
    then show ?thesis
    proof
      assume "n = 9007199254740992"
      then show ?thesis using exact64_two_53 by simp
    next
      assume "n = - 9007199254740992"
      then show ?thesis using exact64_minus_two_53 by simp
    qed
  qed
qed

lemma round64_zero: "round64 0 = Num 0"
  by (simp add: round64_def)

lemma round64_exact: "exact64 v \<Longrightarrow> round64 v = Num v"
  by (simp add: exact64_def)

lemma pixelToGeo64_exact:
  assumes "exact64 (px * scx)" and "exact64 (tx + px * scx)"
    and "exact64 (py * scy)" and "exact64 (ty - py * scy)"
  shows "pixelToGeo64 (Num px) (Num py)
           \<lparr> tiePoint64 = \<lparr> xc64 = Num tx, yc64 = Num ty \<rparr>,
             pixelScale64 = \<lparr> xc64 = Num scx, yc64 = Num scy \<rparr>, epsg64 = e \<rparr>
         = \<lparr> xc64 = Num (xc (pixelToGeo px py
                           \<lparr> tiePoint = \<lparr> xc = tx, yc = ty \<rparr>,
                             pixelScale = \<lparr> xc = scx, yc = scy \<rparr>, epsg = e \<rparr>)),
             yc64 = Num (yc (pixelToGeo px py
                           \<lparr> tiePoint = \<lparr> xc = tx, yc = ty \<rparr>,
                             pixelScale = \<lparr> xc = scx, yc = scy \<rparr>, epsg = e \<rparr>)) \<rparr>"
  using assms
  by (simp add: pixelToGeo64_def pixelToGeo_def sub64_def round64_exact)

text \<open>With an infinite scale, pixel (0, 0) does not go to the tie point: \<open>0 * Infinity\<close> is NaN.\<close>

lemma pixelToGeo64_infinite_scale:
  "pixelToGeo64 (Num 0) (Num 0)
     \<lparr> tiePoint64 = \<lparr> xc64 = Num 1, yc64 = Num 1 \<rparr>,
       pixelScale64 = \<lparr> xc64 = PosInf, yc64 = Num 1 \<rparr>, epsg64 = None \<rparr>
   = \<lparr> xc64 = NaN, yc64 = Num 1 \<rparr>"
  by (simp add: pixelToGeo64_def sub64_def) (simp add: round64_eval)

text \<open>
  Claim C5, as the code has it. For every GeoReference and all pixel coordinates,
  \<^verbatim>\<open>pixelToGeo\<close> returns (tiePoint.x + px * pixelScale.x, tiePoint.y - py * pixelScale.y),
  each sum, difference and product rounded to binary64. For a reference whose tie point and
  scale are finite, pixel (0, 0) goes to the tie point; the x result for px + dx is the x
  result for px plus dx * pixelScale.x (whatever the rows), and the y result for py + dy is
  the y result for py minus dy * pixelScale.y (whatever the columns), provided that none of
  the sums, differences and products involved is rounded.
\<close>

theorem pixelToGeo64_formula_tiepoint_exact_steps:
  "pixelToGeo64 px py meta =
     \<lparr> xc64 = add64 (xc64 (tiePoint64 meta)) (mul64 px (xc64 (pixelScale64 meta))),
       yc64 = sub64 (yc64 (tiePoint64 meta)) (mul64 py (yc64 (pixelScale64 meta))) \<rparr>
   \<and> (tiePoint64 meta = \<lparr> xc64 = Num tx, yc64 = Num ty \<rparr>
        \<and> pixelScale64 meta = \<lparr> xc64 = Num scx, yc64 = Num scy \<rparr>
        \<and> exact64 tx \<and> exact64 ty
      \<longrightarrow> pixelToGeo64 (Num 0) (Num 0) meta = tiePoint64 meta
        \<and> (exact64 (p + dx) \<and> exact64 ((p + dx) * scx) \<and> exact64 (tx + (p + dx) * scx)
             \<and> exact64 (p * scx) \<and> exact64 (tx + p * scx) \<and> exact64 (dx * scx)
           \<longrightarrow> xc64 (pixelToGeo64 (add64 (Num p) (Num dx)) qy meta)
                 = add64 (xc64 (pixelToGeo64 (Num p) py meta)) (mul64 (Num dx) (Num scx)))
        \<and> (exact64 (q + dy) \<and> exact64 ((q + dy) * scy) \<and> exact64 (ty - (q + dy) * scy)
             \<and> exact64 (q * scy) \<and> exact64 (ty - q * scy) \<and> exact64 (dy * scy)
           \<longrightarrow> yc64 (pixelToGeo64 qx (add64 (Num q) (Num dy)) meta)
                 = sub64 (yc64 (pixelToGeo64 px (Num q) meta)) (mul64 (Num dy) (Num scy))))"
proof -
  have formula: "pixelToGeo64 px py meta =
     \<lparr> xc64 = add64 (xc64 (tiePoint64 meta)) (mul64 px (xc64 (pixelScale64 meta))),
       yc64 = sub64 (yc64 (tiePoint64 meta)) (mul64 py (yc64 (pixelScale64 meta))) \<rparr>"
    by (simp add: pixelToGeo64_def)
  have rest: "pixelToGeo64 (Num 0) (Num 0) meta = tiePoint64 meta
        \<and> (exact64 (p + dx) \<and> exact64 ((p + dx) * scx) \<and> exact64 (tx + (p + dx) * scx)
             \<and> exact64 (p * scx) \<and> exact64 (tx + p * scx) \<and> exact64 (dx * scx)
           \<longrightarrow> xc64 (pixelToGeo64 (add64 (Num p) (Num dx)) qy meta)
                 = add64 (xc64 (pixelToGeo64 (Num p) py meta)) (mul64 (Num dx) (Num scx)))
        \<and> (exact64 (q + dy) \<and> exact64 ((q + dy) * scy) \<and> exact64 (ty - (q + dy) * scy)
             \<and> exact64 (q * scy) \<and> exact64 (ty - q * scy) \<and> exact64 (dy * scy)
           \<longrightarrow> yc64 (pixelToGeo64 qx (add64 (Num q) (Num dy)) meta)
                 = sub64 (yc64 (pixelToGeo64 px (Num q) meta)) (mul64 (Num dy) (Num scy)))"
    if tie: "tiePoint64 meta = \<lparr> xc64 = Num tx, yc64 = Num ty \<rparr>"
      and scale: "pixelScale64 meta = \<lparr> xc64 = Num scx, yc64 = Num scy \<rparr>"
      and etx: "exact64 tx" and ety: "exact64 ty"
  proof (intro conjI impI)
    show "pixelToGeo64 (Num 0) (Num 0) meta = tiePoint64 meta"
      using etx ety
      by (simp add: pixelToGeo64_def tie scale round64_zero sub64_def exact64_def)
  next
    assume ex: "exact64 (p + dx) \<and> exact64 ((p + dx) * scx) \<and> exact64 (tx + (p + dx) * scx)
             \<and> exact64 (p * scx) \<and> exact64 (tx + p * scx) \<and> exact64 (dx * scx)"
    have l: "xc64 (pixelToGeo64 (add64 (Num p) (Num dx)) qy meta) = Num (tx + (p + dx) * scx)"
      using ex by (simp add: pixelToGeo64_def tie scale round64_exact)
    have eq: "tx + p * scx + dx * scx = tx + (p + dx) * scx" by (simp add: algebra_simps)
    have "exact64 (tx + (p + dx) * scx)" using ex by blast
    then have "exact64 (tx + p * scx + dx * scx)" by (simp only: eq)
    then have r: "add64 (xc64 (pixelToGeo64 (Num p) py meta)) (mul64 (Num dx) (Num scx))
                    = Num (tx + p * scx + dx * scx)"
      using ex by (simp add: pixelToGeo64_def tie scale round64_exact)
    show "xc64 (pixelToGeo64 (add64 (Num p) (Num dx)) qy meta)
            = add64 (xc64 (pixelToGeo64 (Num p) py meta)) (mul64 (Num dx) (Num scx))"
      by (simp only: l r eq)
  next
    assume ex: "exact64 (q + dy) \<and> exact64 ((q + dy) * scy) \<and> exact64 (ty - (q + dy) * scy)
             \<and> exact64 (q * scy) \<and> exact64 (ty - q * scy) \<and> exact64 (dy * scy)"
    have l: "yc64 (pixelToGeo64 qx (add64 (Num q) (Num dy)) meta) = Num (ty - (q + dy) * scy)"
      using ex by (simp add: pixelToGeo64_def tie scale sub64_def round64_exact)
    have eq: "ty - q * scy - dy * scy = ty - (q + dy) * scy" by (simp add: algebra_simps)
    have "exact64 (ty - (q + dy) * scy)" using ex by blast
    then have "exact64 (ty - q * scy - dy * scy)" by (simp only: eq)
    then have r: "sub64 (yc64 (pixelToGeo64 px (Num q) meta)) (mul64 (Num dy) (Num scy))
                    = Num (ty - q * scy - dy * scy)"
      using ex by (simp add: pixelToGeo64_def tie scale sub64_def round64_exact)
    show "yc64 (pixelToGeo64 qx (add64 (Num q) (Num dy)) meta)
            = sub64 (yc64 (pixelToGeo64 px (Num q) meta)) (mul64 (Num dy) (Num scy))"
      by (simp only: l r eq)
  qed
  show ?thesis using formula rest by blast
qed

theorem pixelToGeo64_formula_tiepoint_exact_steps_witness:
  "pixelToGeo64 (Num 0) (Num 0)
     \<lparr> tiePoint64 = \<lparr> xc64 = Num 500000, yc64 = Num 4000000 \<rparr>,
       pixelScale64 = \<lparr> xc64 = Num (1 / 2), yc64 = Num (1 / 2) \<rparr>, epsg64 = Some 32654 \<rparr>
     = \<lparr> xc64 = Num 500000, yc64 = Num 4000000 \<rparr>
   \<and> xc64 (pixelToGeo64 (add64 (Num 10) (Num 5)) (Num 20)
           \<lparr> tiePoint64 = \<lparr> xc64 = Num 500000, yc64 = Num 4000000 \<rparr>,
             pixelScale64 = \<lparr> xc64 = Num (1 / 2), yc64 = Num (1 / 2) \<rparr>, epsg64 = Some 32654 \<rparr>)
     = add64 (xc64 (pixelToGeo64 (Num 10) (Num 20)
           \<lparr> tiePoint64 = \<lparr> xc64 = Num 500000, yc64 = Num 4000000 \<rparr>,
             pixelScale64 = \<lparr> xc64 = Num (1 / 2), yc64 = Num (1 / 2) \<rparr>, epsg64 = Some 32654 \<rparr>))
         (mul64 (Num 5) (Num (1 / 2)))
   \<and> yc64 (pixelToGeo64 (Num 10) (add64 (Num 20) (Num 7))
           \<lparr> tiePoint64 = \<lparr> xc64 = Num 500000, yc64 = Num 4000000 \<rparr>,
             pixelScale64 = \<lparr> xc64 = Num (1 / 2), yc64 = Num (1 / 2) \<rparr>, epsg64 = Some 32654 \<rparr>)
     = sub64 (yc64 (pixelToGeo64 (Num 10) (Num 20)
           \<lparr> tiePoint64 = \<lparr> xc64 = Num 500000, yc64 = Num 4000000 \<rparr>,
             pixelScale64 = \<lparr> xc64 = Num (1 / 2), yc64 = Num (1 / 2) \<rparr>, epsg64 = Some 32654 \<rparr>))
         (mul64 (Num 7) (Num (1 / 2)))"
proof -
  let ?M = "\<lparr> tiePoint64 = \<lparr> xc64 = Num 500000, yc64 = Num 4000000 \<rparr>,
             pixelScale64 = \<lparr> xc64 = Num (1 / 2), yc64 = Num (1 / 2) \<rparr>, epsg64 = Some 32654 \<rparr>"
  have ex: "exact64 500000" "exact64 4000000"
      "exact64 (10 + 5)" "exact64 ((10 + 5) * (1 / 2))" "exact64 (500000 + (10 + 5) * (1 / 2))"
      "exact64 (10 * (1 / 2))" "exact64 (500000 + 10 * (1 / 2))" "exact64 (5 * (1 / 2))"
      "exact64 (20 + 7)" "exact64 ((20 + 7) * (1 / 2))" "exact64 (4000000 - (20 + 7) * (1 / 2))"
      "exact64 (20 * (1 / 2))" "exact64 (4000000 - 20 * (1 / 2))" "exact64 (7 * (1 / 2))"
    by (simp_all add: exact64_def round64_eval)
  show ?thesis
    using pixelToGeo64_formula_tiepoint_exact_steps
            [where meta = ?M and tx = 500000 and ty = 4000000 and scx = "1 / 2" and scy = "1 / 2"
               and p = 10 and dx = 5 and q = 20 and dy = 7 and px = "Num 10" and py = "Num 20"
               and qx = "Num 10" and qy = "Num 20"]
          ex
    by simp
qed

text \<open>
  Claim C5, as stated, counterexample. The claim has the x result grow by dx * pixelScale.x
  for every dx. For the tie point x = 0.1, scale 1, px = 0.2 and dx = 0.3 (the literals, that
  is, the binary64 values nearest to them) the x result at px + dx is
  5404319552844595 / 2^53 (printed 0.6), and the x result at px plus dx * pixelScale.x is
  5404319552844596 / 2^53 (printed 0.6000000000000001).
\<close>

theorem pixelToGeo64_not_additive:
  "xc64 (pixelToGeo64 (add64 (round64 (2 / 10)) (round64 (3 / 10))) (Num 0)
           \<lparr> tiePoint64 = \<lparr> xc64 = round64 (1 / 10), yc64 = Num 0 \<rparr>,
             pixelScale64 = \<lparr> xc64 = Num 1, yc64 = Num 1 \<rparr>, epsg64 = None \<rparr>)
     = Num (5404319552844595 / 9007199254740992)
   \<and> add64 (xc64 (pixelToGeo64 (round64 (2 / 10)) (Num 0)
                  \<lparr> tiePoint64 = \<lparr> xc64 = round64 (1 / 10), yc64 = Num 0 \<rparr>,
                    pixelScale64 = \<lparr> xc64 = Num 1, yc64 = Num 1 \<rparr>, epsg64 = None \<rparr>))
            (mul64 (round64 (3 / 10)) (Num 1))
     = Num (5404319552844596 / 9007199254740992)
   \<and> xc64 (pixelToGeo64 (add64 (round64 (2 / 10)) (round64 (3 / 10))) (Num 0)
           \<lparr> tiePoint64 = \<lparr> xc64 = round64 (1 / 10), yc64 = Num 0 \<rparr>,
             pixelScale64 = \<lparr> xc64 = Num 1, yc64 = Num 1 \<rparr>, epsg64 = None \<rparr>)
     \<noteq> add64 (xc64 (pixelToGeo64 (round64 (2 / 10)) (Num 0)
                  \<lparr> tiePoint64 = \<lparr> xc64 = round64 (1 / 10), yc64 = Num 0 \<rparr>,
                    pixelScale64 = \<lparr> xc64 = Num 1, yc64 = Num 1 \<rparr>, epsg64 = None \<rparr>))
            (mul64 (round64 (3 / 10)) (Num 1))"
  by (simp add: pixelToGeo64_def lit01 lit02 lit03) (simp add: round64_eval)

subsection \<open>Mapping back to image coordinates\<close>

text \<open>
  Claim C6. For every detection of the list and every tile parameter tuple with a positive
  scale, the remapped detection has cx' = (cx - padX) / scale + tileOffsetX,
  cy' = (cy - padY) / scale + tileOffsetY, width' = width / scale, height' = height / scale
  and the angle it had; class, name and confidence are carried over too, and the list keeps
  its length.
\<close>

theorem mapDetectionsToOriginal_fields:
  assumes "0 < scale" and "i < length detections"
  shows "length (mapDetectionsToOriginal detections scale padX padY tileOffsetX tileOffsetY)
           = length detections
         \<and> (let d = detections ! i;
                 d' = mapDetectionsToOriginal detections scale padX padY tileOffsetX tileOffsetY ! i
             in cx d' = (cx d - padX) / scale + tileOffsetX
              \<and> cy d' = (cy d - padY) / scale + tileOffsetY
              \<and> width d' = width d / scale
              \<and> height d' = height d / scale
              \<and> angle d' = angle d
              \<and> classId d' = classId d
              \<and> className d' = className d
              \<and> confidence d' = confidence d)"
  using assms by (simp add: mapDetectionsToOriginal_def Let_def)

theorem mapDetectionsToOriginal_fields_witness:
  "(let d' = mapDetectionsToOriginal
               [\<lparr> classId = 1, className = ''ship'', confidence = 0.9, cx = 110, cy = 220,
                   width = 40, height = 20, angle = 1 \<rparr>] (1 / 2) 10 20 768 0 ! 0
    in cx d' = 968 \<and> cy d' = 400 \<and> width d' = 80 \<and> height d' = 40 \<and> angle d' = 1)"
  using mapDetectionsToOriginal_fields [of "1 / 2" 0
          "[\<lparr> classId = 1, className = ''ship'', confidence = 0.9, cx = 110, cy = 220,
              width = 40, height = 20, angle = 1 \<rparr>]" 10 20 768 0]
  by (simp add: Let_def)

subsection \<open>Corners of an unrotated box\<close>

text \<open>
  Claim C7. For every detection with angle 0 the corner computation returns exactly the four
  points (cx - w/2, cy - h/2), (cx + w/2, cy - h/2), (cx + w/2, cy + h/2),
  (cx - w/2, cy + h/2), in that order.
\<close>

theorem getOBBCorners_axis_aligned:
  assumes "angle d = 0"
  shows "getOBBCorners d =
           [(cx d - width d / 2, cy d - height d / 2),
            (cx d + width d / 2, cy d - height d / 2),
            (cx d + width d / 2, cy d + height d / 2),
            (cx d - width d / 2, cy d + height d / 2)]"
  using assms by (simp add: getOBBCorners_def Let_def)

theorem getOBBCorners_axis_aligned_witness:
  "getOBBCorners \<lparr> classId = 0, className = ''plane'', confidence = 0.9, cx = 50, cy = 50,
                    width = 20, height = 10, angle = 0 \<rparr>
     = [(40, 45), (60, 45), (60, 55), (40, 55)]"
  using getOBBCorners_axis_aligned
          [of "\<lparr> classId = 0, className = ''plane'', confidence = 0.9, cx = 50, cy = 50,
                 width = 20, height = 10, angle = 0 \<rparr>"]
  by simp

subsection \<open>Merging with an empty set\<close>

lemma fold_mergeStep_Nil:
  "fold (mergeStep [] t) gs merged = merged @ map detection gs"
  by (induction gs arbitrary: merged) (simp_all add: mergeStep_def)

lemma detection_toGeoDetection: "detection (toGeoDetection meta d) = d"
  by (simp add: toGeoDetection_def)

lemma map_detection_toGeoDetection: "map (detection \<circ> toGeoDetection meta) ds = ds"
  by (induction ds) (simp_all add: detection_toGeoDetection)

text \<open>
  Claim C8. Merging two empty detection sets returns the empty set, and merging any
  detection set with an empty one, as the first or as the second argument, returns exactly
  that set, in its order, for any two GeoReferences and any threshold.
\<close>

theorem mergeGeoTIFFDetections_empty:
  "mergeGeoTIFFDetections [] meta1 [] meta2 iouThreshold = []
   \<and> mergeGeoTIFFDetections ds meta1 [] meta2 iouThreshold = ds
   \<and> mergeGeoTIFFDetections [] meta1 ds meta2 iouThreshold = ds"
  by (simp add: mergeGeoTIFFDetections_def fold_mergeStep_Nil map_detection_toGeoDetection)

subsection \<open>The loops of the suppression compute a greedy selection\<close>

lemma computeAABBIoU_sym: "computeAABBIoU a b = computeAABBIoU b a"
  by (simp only: computeAABBIoU_def Let_def max.commute min.commute add.commute)

lemma nmsInnerStep_eq:
  "nmsInnerStep xs t i j S = (if suppresses t (xs ! i) (xs ! j) then insert j S else S)"
  by (auto simp: nmsInnerStep_def suppresses_def)

lemma fold_nmsInnerStep:
  "fold (nmsInnerStep xs t i) [a ..< b] S =
     S \<union> {j. a \<le> j \<and> j < b \<and> suppresses t (xs ! i) (xs ! j)}"
proof (induction b arbitrary: S)
  case 0
  show ?case by simp
next
  case (Suc b)
  show ?case
  proof (cases "a \<le> b")
    case True
    then have "fold (nmsInnerStep xs t i) [a ..< Suc b] S =
                 nmsInnerStep xs t i b (fold (nmsInnerStep xs t i) [a ..< b] S)"
      by simp
    also have "\<dots> = nmsInnerStep xs t i b
                       (S \<union> {j. a \<le> j \<and> j < b \<and> suppresses t (xs ! i) (xs ! j)})"
      by (simp only: Suc.IH)
    also have "\<dots> = S \<union> {j. a \<le> j \<and> j < Suc b \<and> suppresses t (xs ! i) (xs ! j)}"
      using True by (auto simp: nmsInnerStep_eq less_Suc_eq)
    finally show ?thesis .
  next
    case False
    then show ?thesis by auto
  qed
qed

lemma nmsInner_eq:
  "nmsInner xs t i S = S \<union> {j. i < j \<and> j < length xs \<and> suppresses t (xs ! i) (xs ! j)}"
  by (auto simp: nmsInner_def fold_nmsInnerStep)

lemma alive_suppressed: "i \<in> S \<Longrightarrow> i < length xs \<Longrightarrow> alive xs S i = alive xs S (Suc i)"
  by (simp add: alive_def upt_conv_Cons)

lemma alive_kept: "i \<notin> S \<Longrightarrow> i < length xs \<Longrightarrow> alive xs S i = xs ! i # alive xs S (Suc i)"
  by (simp add: alive_def upt_conv_Cons)

lemma alive_nmsInner:
  "alive xs (nmsInner xs t i S) (Suc i) =
     filter (\<lambda>e. \<not> suppresses t (xs ! i) e) (alive xs S (Suc i))"
proof -
  have "filter (\<lambda>j. j \<notin> nmsInner xs t i S) [Suc i ..< length xs] =
          filter (\<lambda>j. \<not> suppresses t (xs ! i) (xs ! j))
            (filter (\<lambda>j. j \<notin> S) [Suc i ..< length xs])"
    by (auto simp: nmsInner_eq intro!: filter_cong)
  then show ?thesis
    by (simp add: alive_def filter_map comp_def)
qed

lemma fold_nmsOuterStep:
  "i \<le> length xs \<Longrightarrow>
   fst (fold (nmsOuterStep xs t) [i ..< length xs] (keep, S)) =
     keep @ nmsGreedy t (alive xs S i)"
proof (induction "length xs - i" arbitrary: i keep S)
  case 0
  then show ?case by (simp add: alive_def)
next
  case (Suc n)
  then have lt: "i < length xs" and n: "n = length xs - Suc i" by auto
  show ?case
  proof (cases "i \<in> S")
    case True
    then show ?thesis
      using Suc.hyps(1) [OF n, of keep S] lt
      by (simp add: upt_conv_Cons nmsOuterStep_def alive_suppressed)
  next
    case False
    then show ?thesis
      using Suc.hyps(1) [OF n, of "keep @ [xs ! i]" "nmsInner xs t i S"] lt
      by (simp add: upt_conv_Cons nmsOuterStep_def alive_kept alive_nmsInner)
  qed
qed

lemma alive_all: "alive xs {} 0 = xs"
  by (simp add: alive_def map_nth)

lemma nmsOBB_greedy: "nmsOBB detections t = nmsGreedy t (sortByConfidence detections)"
proof (cases "detections = []")
  case True
  then show ?thesis by (simp add: nmsOBB_def sortByConfidence_def)
next
  case False
  then show ?thesis
    using fold_nmsOuterStep [of 0 "sortByConfidence detections" t "[]" "{}"]
    by (simp add: nmsOBB_def Let_def alive_all)
qed

lemma set_nmsGreedy: "set (nmsGreedy t xs) \<subseteq> set xs"
  by (induction t xs rule: nmsGreedy.induct) auto

lemma nmsGreedy_separated:
  "sorted_wrt (\<lambda>d e. \<not> suppresses t d e) (nmsGreedy t xs)"
proof (induction t xs rule: nmsGreedy.induct)
  case (1 t)
  show ?case by simp
next
  case (2 t d rest)
  let ?ys = "nmsGreedy t (filter (\<lambda>e. \<not> suppresses t d e) rest)"
  have "set ?ys \<subseteq> set (filter (\<lambda>e. \<not> suppresses t d e) rest)"
    by (rule set_nmsGreedy)
  then have a: "\<forall>e \<in> set ?ys. \<not> suppresses t d e"
    by auto
  have b: "sorted_wrt (\<lambda>d e. \<not> suppresses t d e) ?ys"
    by (rule 2)
  show ?case
    unfolding nmsGreedy.simps sorted_wrt.simps using a b by blast
qed

lemma suppresses_sym: "suppresses t d e = suppresses t e d"
  by (auto simp: suppresses_def computeAABBIoU_sym)

lemma nmsGreedy_class:
  "filter (\<lambda>d. classId d = c) (nmsGreedy t xs) = nmsGreedy t (filter (\<lambda>d. classId d = c) xs)"
proof (induction t xs rule: nmsGreedy.induct)
  case (1 t)
  show ?case by simp
next
  case (2 t d rest)
  let ?keep = "\<lambda>e. \<not> suppresses t d e"
  let ?cls = "\<lambda>e. classId e = c"
  show ?case
  proof (cases "classId d = c")
    case True
    have "filter ?cls (filter ?keep rest) = filter ?keep (filter ?cls rest)"
      by (simp add: conj_commute)
    with 2 True show ?thesis by simp
  next
    case False
    have "filter ?cls (filter ?keep rest) = filter ?cls rest"
      using False by (auto simp: suppresses_def intro!: filter_cong)
    with 2 False show ?thesis by simp
  qed
qed

lemma filter_sortByConfidence:
  "filter P (sortByConfidence xs) = sortByConfidence (filter P xs)"
  by (simp add: sortByConfidence_def filter_sort)

lemma nmsGreedy_dropped:
  "d \<in> set xs \<Longrightarrow> d \<notin> set (nmsGreedy t xs) \<Longrightarrow>
     \<exists>k \<in> set (nmsGreedy t xs). suppresses t k d"
proof (induction t xs rule: nmsGreedy.induct)
  case (1 t)
  then show ?case by simp
next
  case (2 t k rest)
  show ?case
  proof (cases "suppresses t k d")
    case True
    then show ?thesis by auto
  next
    case False
    with 2 show ?thesis by auto
  qed
qed

lemma sortByConfidence_pair:
  "sortByConfidence [a, b] = (if confidence b \<le> confidence a then [a, b] else [b, a])"
  by (simp add: sortByConfidence_def)


lemma nmsOBB_dropped_by_same_class:
  assumes "d \<in> set detections" and "d \<notin> set (nmsOBB detections t)"
  shows "\<exists>k \<in> set (nmsOBB detections t). classId k = classId d \<and> computeAABBIoU k d > t"
proof -
  have "d \<in> set (sortByConfidence detections)"
    using assms(1) by (simp add: sortByConfidence_def)
  then have "\<exists>k \<in> set (nmsGreedy t (sortByConfidence detections)). suppresses t k d"
    using assms(2) by (intro nmsGreedy_dropped) (simp_all add: nmsOBB_greedy)
  then show ?thesis by (simp add: nmsOBB_greedy suppresses_def)
qed

subsection \<open>Two overlapping detections of one class\<close>

text \<open>
  Claim C3. For every input of exactly two detections of the same class whose approximate
  IoU (squares of side max(width, height) about the two centres) exceeds the threshold, the
  suppressor returns exactly one detection, the one of higher confidence (the first of the
  two when the confidences are equal). The instance: box A (cx = 100, cy = 100, w = 40,
  h = 20, confidence 0.8) and box B (cx = 105, cy = 100, w = 40, h = 20, confidence 0.95) at
  threshold 0.45 give the single result B, of confidence 0.95.
\<close>

theorem nmsOBB_pair_collapses:
  assumes "classId a = classId b" and "computeAABBIoU a b > t"
  shows "nmsOBB [a, b] t = [if confidence a < confidence b then b else a]"
  using assms
  by (simp add: nmsOBB_greedy sortByConfidence_pair suppresses_def computeAABBIoU_sym [of b a])

theorem nmsOBB_pair_collapses_witness:
  "nmsOBB [\<lparr> classId = 0, className = ''plane'', confidence = 0.8, cx = 100, cy = 100,
              width = 40, height = 20, angle = 0 \<rparr>,
           \<lparr> classId = 0, className = ''plane'', confidence = 0.95, cx = 105, cy = 100,
              width = 40, height = 20, angle = 0 \<rparr>] 0.45
     = [\<lparr> classId = 0, className = ''plane'', confidence = 0.95, cx = 105, cy = 100,
              width = 40, height = 20, angle = 0 \<rparr>]"
  using nmsOBB_pair_collapses
          [of "\<lparr> classId = 0, className = ''plane'', confidence = 0.8, cx = 100, cy = 100,
                 width = 40, height = 20, angle = 0 \<rparr>"
              "\<lparr> classId = 0, className = ''plane'', confidence = 0.95, cx = 105, cy = 100,
                 width = 40, height = 20, angle = 0 \<rparr>" "0.45"]
  by (simp add: computeAABBIoU_def Let_def)


subsection \<open>Suppression stays within a class\<close>

text \<open>
  Claim C4. For every input list and every threshold, suppression never removes a detection
  because of a detection of another class: the detections of a class \<open>c\<close> that are kept
  are exactly those kept when the detections of class \<open>c\<close> are the whole input. In
  particular two detections of different classes are both in the output, in the order of
  the sort, whatever their geometry, also when centre, width, height and angle coincide
  (IoU 1).
\<close>

theorem nmsOBB_never_across_classes:
  "filter (\<lambda>d. classId d = c) (nmsOBB detections t)
     = nmsOBB (filter (\<lambda>d. classId d = c) detections) t
   \<and> (classId a \<noteq> classId b \<longrightarrow>
        nmsOBB [a, b] t = (if confidence b \<le> confidence a then [a, b] else [b, a]))"
  by (simp add: nmsOBB_greedy nmsGreedy_class filter_sortByConfidence sortByConfidence_pair
      suppresses_def)

theorem nmsOBB_never_across_classes_witness:
  "nmsOBB [\<lparr> classId = 0, className = ''plane'', confidence = 0.9, cx = 100, cy = 100,
              width = 40, height = 20, angle = 0 \<rparr>,
           \<lparr> classId = 1, className = ''ship'', confidence = 0.9, cx = 100, cy = 100,
              width = 40, height = 20, angle = 0 \<rparr>] 0.45
     = [\<lparr> classId = 0, className = ''plane'', confidence = 0.9, cx = 100, cy = 100,
              width = 40, height = 20, angle = 0 \<rparr>,
        \<lparr> classId = 1, className = ''ship'', confidence = 0.9, cx = 100, cy = 100,
              width = 40, height = 20, angle = 0 \<rparr>]
   \<and> computeAABBIoU
         \<lparr> classId = 0, className = ''plane'', confidence = 0.9, cx = 100, cy = 100,
            width = 40, height = 20, angle = 0 \<rparr>
         \<lparr> classId = 1, className = ''ship'', confidence = 0.9, cx = 100, cy = 100,
            width = 40, height = 20, angle = 0 \<rparr> = 1"
  using nmsOBB_never_across_classes
          [of 0 "[]" "0.45"
              "\<lparr> classId = 0, className = ''plane'', confidence = 0.9, cx = 100, cy = 100,
                 width = 40, height = 20, angle = 0 \<rparr>"
              "\<lparr> classId = 1, className = ''ship'', confidence = 0.9, cx = 100, cy = 100,
                 width = 40, height = 20, angle = 0 \<rparr>"]
  by (simp add: computeAABBIoU_def Let_def)

subsection \<open>No two kept detections of a class overlap above the threshold\<close>

text \<open>
  Claim C10. For every input list and threshold, any two detections at distinct positions
  of the output of \<^verbatim>\<open>nmsOBB\<close> that have the same class have an approximate IoU (squares of
  side max(width, height) about the centres) of at most the threshold.
\<close>

theorem nmsOBB_same_class_separated:
  assumes "i < length (nmsOBB detections t)" and "j < length (nmsOBB detections t)"
    and "i \<noteq> j"
    and "classId (nmsOBB detections t ! i) = classId (nmsOBB detections t ! j)"
  shows "computeAABBIoU (nmsOBB detections t ! i) (nmsOBB detections t ! j) \<le> t"
proof -
  let ?out = "nmsOBB detections t"
  have sep: "sorted_wrt (\<lambda>d e. \<not> suppresses t d e) ?out"
    by (simp add: nmsOBB_greedy nmsGreedy_separated)
  have "\<not> suppresses t (?out ! i) (?out ! j)"
  proof (cases "i < j")
    case True
    then show ?thesis using sep assms(2) by (simp add: sorted_wrt_iff_nth_less)
  next
    case False
    then have "j < i" using assms(3) by simp
    then have "\<not> suppresses t (?out ! j) (?out ! i)"
      using sep assms(1) by (simp add: sorted_wrt_iff_nth_less)
    then show ?thesis by (simp add: suppresses_sym)
  qed
  then show ?thesis using assms(4) by (simp add: suppresses_def)
qed

theorem nmsOBB_same_class_separated_witness:
  "nmsOBB [\<lparr> classId = 0, className = ''plane'', confidence = 0.8, cx = 100, cy = 100,
              width = 40, height = 20, angle = 0 \<rparr>,
           \<lparr> classId = 0, className = ''plane'', confidence = 0.9, cx = 130, cy = 100,
              width = 40, height = 20, angle = 0 \<rparr>] 0.45
     = [\<lparr> classId = 0, className = ''plane'', confidence = 0.9, cx = 130, cy = 100,
              width = 40, height = 20, angle = 0 \<rparr>,
        \<lparr> classId = 0, className = ''plane'', confidence = 0.8, cx = 100, cy = 100,
              width = 40, height = 20, angle = 0 \<rparr>]
   \<and> computeAABBIoU
         \<lparr> classId = 0, className = ''plane'', confidence = 0.9, cx = 130, cy = 100,
            width = 40, height = 20, angle = 0 \<rparr>
         \<lparr> classId = 0, className = ''plane'', confidence = 0.8, cx = 100, cy = 100,
            width = 40, height = 20, angle = 0 \<rparr> \<le> 0.45"
proof -
  let ?a = "\<lparr> classId = 0, className = ''plane'', confidence = 0.8, cx = 100, cy = 100,
              width = 40, height = 20, angle = 0 \<rparr>"
  let ?b = "\<lparr> classId = 0, className = ''plane'', confidence = 0.9, cx = 130, cy = 100,
              width = 40, height = 20, angle = 0 \<rparr>"
  have out: "nmsOBB [?a, ?b] 0.45 = [?b, ?a]"
    by (simp add: nmsOBB_greedy sortByConfidence_pair suppresses_def computeAABBIoU_def Let_def)
  show ?thesis
    using nmsOBB_same_class_separated [of 0 "[?a, ?b]" "0.45" 1] out
    by simp
qed

subsection \<open>The functions on the store compute the same lists and write only fresh arrays\<close>

lemma nmsOuterStep_skip: "i \<in> S \<Longrightarrow> nmsOuterStep xs t i (keep, S) = (keep, S)"
  by (simp add: nmsOuterStep_def)

lemma nmsOuterStep_keep:
  "i \<notin> S \<Longrightarrow> nmsOuterStep xs t i (keep, S) = (keep @ [xs ! i], nmsInner xs t i S)"
  by (simp add: nmsOuterStep_def)

lemma nmsOuterStepSt_skip: "i \<in> S \<Longrightarrow> nmsOuterStepSt sortedA keepA t i (s, S) = (s, S)"
  by (simp add: nmsOuterStepSt_def)

lemma nmsOuterStepSt_keep:
  "i \<notin> S \<Longrightarrow> nmsOuterStepSt sortedA keepA t i (s, S) =
     (push keepA (arrays s sortedA ! i) s, nmsInner (arrays s sortedA) t i S)"
  by (simp add: nmsOuterStepSt_def)

lemma push_other: "a \<noteq> b \<Longrightarrow> arrays (push a d s) b = arrays s b"
  by (simp add: push_def)

lemma push_same: "arrays (push a d s) a = arrays s a @ [d]"
  by (simp add: push_def)

lemma push_overwritten:
  "(push a d s)\<lparr> arrays := (arrays (push a d s))(a := v) \<rparr> = s\<lparr> arrays := (arrays s)(a := v) \<rparr>"
  by (simp add: push_def)

lemma fold_nmsOuterStepSt:
  assumes "keepA \<noteq> sortedA" and "arrays s sortedA = srt"
  shows "fold (nmsOuterStepSt sortedA keepA t) js (s, S) =
           (s\<lparr> arrays := (arrays s)(keepA :=
                  fst (fold (nmsOuterStep srt t) js (arrays s keepA, S))) \<rparr>,
            snd (fold (nmsOuterStep srt t) js (arrays s keepA, S)))"
  using assms
proof (induction js arbitrary: s S)
  case Nil
  then show ?case by simp
next
  case (Cons i js)
  show ?case
  proof (cases "i \<in> S")
    case True
    then show ?thesis
      using Cons.IH [OF Cons.prems(1) Cons.prems(2), of S]
      by (simp add: nmsOuterStepSt_skip nmsOuterStep_skip)
  next
    case False
    let ?s' = "push keepA (srt ! i) s"
    have a: "arrays ?s' sortedA = srt"
      using Cons.prems by (simp add: push_other)
    have step: "nmsOuterStepSt sortedA keepA t i (s, S) = (?s', nmsInner srt t i S)"
      using False Cons.prems(2) by (simp add: nmsOuterStepSt_keep)
    have "fold (nmsOuterStepSt sortedA keepA t) (i # js) (s, S) =
            fold (nmsOuterStepSt sortedA keepA t) js (?s', nmsInner srt t i S)"
      by (simp add: step)
    also have "\<dots> =
        (?s'\<lparr> arrays := (arrays ?s')(keepA :=
            fst (fold (nmsOuterStep srt t) js (arrays ?s' keepA, nmsInner srt t i S))) \<rparr>,
         snd (fold (nmsOuterStep srt t) js (arrays ?s' keepA, nmsInner srt t i S)))"
      by (rule Cons.IH [OF Cons.prems(1) a])
    also have "\<dots> =
        (s\<lparr> arrays := (arrays s)(keepA :=
            fst (fold (nmsOuterStep srt t) (i # js) (arrays s keepA, S))) \<rparr>,
         snd (fold (nmsOuterStep srt t) (i # js) (arrays s keepA, S)))"
      using False by (simp add: nmsOuterStep_keep push_overwritten push_same)
    finally show ?thesis .
  qed
qed

lemma nmsOBBSt_result:
  "arrays (snd (nmsOBBSt a t s)) (fst (nmsOBBSt a t s)) = nmsOBB (arrays s a) t"
proof (cases "arrays s a = []")
  case True
  then show ?thesis by (simp add: nmsOBBSt_def nmsOBB_def newArray_def)
next
  case False
  let ?srt = "sortByConfidence (arrays s a)"
  let ?s3 = "snd (newArray [] (sortInPlace (allocated s) (snd (newArray (arrays s a) s))))"
  have s3: "arrays ?s3 (allocated s) = ?srt" "arrays ?s3 (Suc (allocated s)) = []"
    by (simp_all add: newArray_def sortInPlace_def)
  have neq: "Suc (allocated s) \<noteq> allocated s" by simp
  show ?thesis
    using False fold_nmsOuterStepSt [OF neq s3(1), of t "[0 ..< length ?srt]" "{}"]
    by (simp add: nmsOBBSt_def nmsOBB_def newArray_def sortInPlace_def Let_def
        split_def s3)
qed

lemma nmsOBBSt_frame:
  assumes "b < allocated s"
  shows "arrays (snd (nmsOBBSt a t s)) b = arrays s b"
proof (cases "arrays s a = []")
  case True
  then show ?thesis using assms by (simp add: nmsOBBSt_def newArray_def)
next
  case False
  let ?srt = "sortByConfidence (arrays s a)"
  let ?s3 = "snd (newArray [] (sortInPlace (allocated s) (snd (newArray (arrays s a) s))))"
  have s3: "arrays ?s3 (allocated s) = ?srt" "arrays ?s3 b = arrays s b"
    using assms by (simp_all add: newArray_def sortInPlace_def)
  have neq: "Suc (allocated s) \<noteq> allocated s" by simp
  show ?thesis
    using False assms fold_nmsOuterStepSt [OF neq s3(1), of t "[0 ..< length ?srt]" "{}"]
    by (simp add: nmsOBBSt_def newArray_def sortInPlace_def Let_def split_def s3)
qed

lemma mergeStepSt_eq:
  "mergeStepSt g1 t m g s = s\<lparr> arrays := (arrays s)(m := mergeStep g1 t g (arrays s m)) \<rparr>"
  by (simp add: mergeStepSt_def mergeStep_def push_def assignIndex_def split: option.split)

lemma fold_mergeStepSt:
  "fold (mergeStepSt g1 t m) gs s =
     s\<lparr> arrays := (arrays s)(m := fold (mergeStep g1 t) gs (arrays s m)) \<rparr>"
proof (induction gs arbitrary: s)
  case Nil
  show ?case by simp
next
  case (Cons g gs)
  let ?s' = "mergeStepSt g1 t m g s"
  have "fold (mergeStepSt g1 t m) (g # gs) s = fold (mergeStepSt g1 t m) gs ?s'"
    by simp
  also have "\<dots> = ?s'\<lparr> arrays := (arrays ?s')(m := fold (mergeStep g1 t) gs (arrays ?s' m)) \<rparr>"
    by (rule Cons.IH)
  also have "\<dots> = s\<lparr> arrays := (arrays s)(m := fold (mergeStep g1 t) (g # gs) (arrays s m)) \<rparr>"
    by (simp add: mergeStepSt_eq)
  finally show ?case .
qed

lemma mergeGeoTIFFDetectionsSt_result:
  "arrays (snd (mergeGeoTIFFDetectionsSt a1 m1 a2 m2 t s))
          (fst (mergeGeoTIFFDetectionsSt a1 m1 a2 m2 t s))
     = mergeGeoTIFFDetections (arrays s a1) m1 (arrays s a2) m2 t"
  by (simp add: mergeGeoTIFFDetectionsSt_def mergeGeoTIFFDetections_def newArray_def
      fold_mergeStepSt Let_def)

lemma mergeGeoTIFFDetectionsSt_frame:
  assumes "b < allocated s"
  shows "arrays (snd (mergeGeoTIFFDetectionsSt a1 m1 a2 m2 t s)) b = arrays s b"
  using assms
  by (simp add: mergeGeoTIFFDetectionsSt_def newArray_def fold_mergeStepSt Let_def)

subsection \<open>Records are kept or dropped as wholes\<close>

lemma findDuplicate_bound:
  "findDuplicate g gs t j = Some k \<Longrightarrow> j \<le> k \<and> k < j + length gs"
  by (induction gs arbitrary: j) (fastforce split: if_splits)+

lemma set_mergeStep:
  "set (mergeStep g1 t g merged) \<subseteq> insert (detection g) (set merged)"
  using set_update_subset_insert [of merged _ "detection g"]
  by (auto simp: mergeStep_def split: option.split)

lemma set_fold_mergeStep:
  "set (fold (mergeStep g1 t) gs merged) \<subseteq> set merged \<union> detection ` set gs"
proof (induction gs arbitrary: merged)
  case Nil
  show ?case by simp
next
  case (Cons g gs)
  have "set (fold (mergeStep g1 t) (g # gs) merged)
          \<subseteq> set (mergeStep g1 t g merged) \<union> detection ` set gs"
    using Cons.IH [of "mergeStep g1 t g merged"] by simp
  also have "\<dots> \<subseteq> insert (detection g) (set merged) \<union> detection ` set gs"
    using set_mergeStep [of g1 t g merged] by blast
  finally show ?case by auto
qed

lemma set_mergeGeoTIFFDetections:
  "set (mergeGeoTIFFDetections d1 m1 d2 m2 t) \<subseteq> set d1 \<union> set d2"
proof -
  have "detection ` set (map (toGeoDetection m2) d2) = set d2"
    by (simp add: image_image detection_toGeoDetection)
  then show ?thesis
    using set_fold_mergeStep [of "map (toGeoDetection m1) d1" t "map (toGeoDetection m2) d2" d1]
    by (simp add: mergeGeoTIFFDetections_def Let_def)
qed

lemma set_nmsOBB: "set (nmsOBB detections t) \<subseteq> set detections"
  using set_nmsGreedy [of t "sortByConfidence detections"]
  by (simp add: nmsOBB_greedy sortByConfidence_def)

text \<open>
  Claim C9. Suppression and merge never alter the fields of a detection. Every record in
  the output of \<^verbatim>\<open>nmsOBB\<close> is a record of its input, every record in the output of
  \<^verbatim>\<open>mergeGeoTIFFDetections\<close> is a record of one of its two inputs, and on the store the two
  functions return a fresh array holding that output while every array that existed before
  the call (the inputs among them) has the contents it had.
\<close>

theorem suppression_and_merge_keep_records:
  assumes "b < allocated s"
  shows "set (nmsOBB detections t) \<subseteq> set detections
       \<and> set (mergeGeoTIFFDetections detections1 meta1 detections2 meta2 t)
            \<subseteq> set detections1 \<union> set detections2
       \<and> arrays (snd (nmsOBBSt a t s)) (fst (nmsOBBSt a t s)) = nmsOBB (arrays s a) t
       \<and> arrays (snd (nmsOBBSt a t s)) b = arrays s b
       \<and> arrays (snd (mergeGeoTIFFDetectionsSt a1 meta1 a2 meta2 t s))
                (fst (mergeGeoTIFFDetectionsSt a1 meta1 a2 meta2 t s))
            = mergeGeoTIFFDetections (arrays s a1) meta1 (arrays s a2) meta2 t
       \<and> arrays (snd (mergeGeoTIFFDetectionsSt a1 meta1 a2 meta2 t s)) b = arrays s b"
  using assms
  by (simp add: set_nmsOBB nmsOBBSt_result nmsOBBSt_frame set_mergeGeoTIFFDetections
      mergeGeoTIFFDetectionsSt_result mergeGeoTIFFDetectionsSt_frame)

theorem suppression_and_merge_keep_records_witness:
  "(let A = \<lparr> classId = 0, className = ''plane'', confidence = 0.8, cx = 100, cy = 100,
               width = 40, height = 20, angle = 0 \<rparr>;
        B = \<lparr> classId = 0, className = ''plane'', confidence = 0.95, cx = 105, cy = 100,
               width = 40, height = 20, angle = 0 \<rparr>;
        C = \<lparr> classId = 0, className = ''plane'', confidence = 0.9, cx = 50, cy = 100,
               width = 40, height = 20, angle = 0 \<rparr>;
        meta1 = \<lparr> tiePoint = \<lparr> xc = 0, yc = 100 \<rparr>, pixelScale = \<lparr> xc = 1, yc = 1 \<rparr>,
                  epsg = Some 32654 \<rparr>;
        meta2 = \<lparr> tiePoint = \<lparr> xc = 50, yc = 100 \<rparr>, pixelScale = \<lparr> xc = 1, yc = 1 \<rparr>,
                  epsg = Some 32654 \<rparr>;
        s = \<lparr> arrays = (\<lambda>_. [])(0 := [A, B], 1 := [C]), allocated = 2 \<rparr>;
        n = nmsOBBSt 0 0.45 s;
        m = mergeGeoTIFFDetectionsSt 0 meta1 1 meta2 0.45 s
    in arrays (snd n) (fst n) = [B] \<and> arrays (snd n) 0 = [A, B]
     \<and> arrays (snd m) (fst m) = [C, B] \<and> arrays (snd m) 0 = [A, B])"
proof -
  let ?A = "\<lparr> classId = 0, className = ''plane'', confidence = 0.8, cx = 100, cy = 100,
               width = 40, height = 20, angle = 0 \<rparr>"
  let ?B = "\<lparr> classId = 0, className = ''plane'', confidence = 0.95, cx = 105, cy = 100,
               width = 40, height = 20, angle = 0 \<rparr>"
  let ?C = "\<lparr> classId = 0, className = ''plane'', confidence = 0.9, cx = 50, cy = 100,
               width = 40, height = 20, angle = 0 \<rparr>"
  let ?meta1 = "\<lparr> tiePoint = \<lparr> xc = 0, yc = 100 \<rparr>, pixelScale = \<lparr> xc = 1, yc = 1 \<rparr>,
                  epsg = Some 32654 \<rparr>"
  let ?meta2 = "\<lparr> tiePoint = \<lparr> xc = 50, yc = 100 \<rparr>, pixelScale = \<lparr> xc = 1, yc = 1 \<rparr>,
                  epsg = Some 32654 \<rparr>"
  let ?s = "\<lparr> arrays = (\<lambda>_. [])(0 := [?A, ?B], 1 := [?C]), allocated = 2 \<rparr>"
  have nms: "nmsOBB [?A, ?B] 0.45 = [?B]"
    by (simp add: nmsOBB_greedy sortByConfidence_pair suppresses_def computeAABBIoU_def Let_def)
  have mrg: "mergeGeoTIFFDetections [?A, ?B] ?meta1 [?C] ?meta2 0.45 = [?C, ?B]"
    by (simp add: mergeGeoTIFFDetections_def mergeStep_def toGeoDetection_def
        getOBBCorners_def pixelToGeo_def computePolygonIoU_def getAABBStep_def Let_def)
  show ?thesis
    using suppression_and_merge_keep_records
            [where b = 0 and s = ?s and a = 0 and t = "0.45" and ?a1.0 = 0 and ?a2.0 = 1
               and ?meta1.0 = ?meta1 and ?meta2.0 = ?meta2
               and detections = "[?A, ?B]" and ?detections1.0 = "[?A, ?B]"
               and ?detections2.0 = "[?C]"]
          nms mrg
    by (simp add: Let_def)
qed

subsection \<open>Duplicates across the two sets\<close>

text \<open>
  With a single detection in the second set the merge does what its comment says
  (\<^verbatim>\<open>Keep the detection with higher confidence\<close>): the candidate is appended when no entry of
  the first set has its class and an IoU above the threshold; otherwise it takes the place
  of the first such entry when its confidence is strictly greater, and is dropped when not.
\<close>

lemma mergeGeoTIFFDetections_single:
  "mergeGeoTIFFDetections detections1 meta1 [d] meta2 iouThreshold =
     (case findDuplicate (toGeoDetection meta2 d) (map (toGeoDetection meta1) detections1)
             iouThreshold 0 of
        None \<Rightarrow> detections1 @ [d]
      | Some j \<Rightarrow> if confidence d > confidence (detections1 ! j)
                  then detections1[j := d] else detections1)"
proof (cases "findDuplicate (toGeoDetection meta2 d) (map (toGeoDetection meta1) detections1)
                iouThreshold 0")
  case None
  then show ?thesis
    by (simp add: mergeGeoTIFFDetections_def mergeStep_def detection_toGeoDetection)
next
  case (Some j)
  then have "j < length detections1"
    using findDuplicate_bound [of "toGeoDetection meta2 d"
        "map (toGeoDetection meta1) detections1" iouThreshold 0 j] by simp
  then show ?thesis
    using Some
    by (simp add: mergeGeoTIFFDetections_def mergeStep_def detection_toGeoDetection)
qed

text \<open>
  Claim C2. The claim: each second-set detection whose geographic IoU with a same-class
  first-set detection exceeds the threshold collapses with the first such entry into one
  merged entry, and that entry retains the higher confidence, being replaced only by a
  strictly more confident detection. The code compares every candidate with the entry of
  \<^verbatim>\<open>geoDetections1\<close>, not with the entry that \<^verbatim>\<open>merged\<close> holds by then. Below, the first
  set has one detection of confidence 0.5 and the second set two detections of
  confidences 0.9 and 0.6, all three at the same geographic place (100, 0): the merged
  entry ends with confidence 0.6, the detection of confidence 0.9 having been overwritten
  by a less confident one.
\<close>

theorem mergeGeoTIFFDetections_stale_comparison:
  "mergeGeoTIFFDetections
     [\<lparr> classId = 0, className = ''plane'', confidence = 0.5, cx = 100, cy = 100,
         width = 40, height = 20, angle = 0 \<rparr>]
     \<lparr> tiePoint = \<lparr> xc = 0, yc = 100 \<rparr>, pixelScale = \<lparr> xc = 1, yc = 1 \<rparr>,
       epsg = Some 32654 \<rparr>
     [\<lparr> classId = 0, className = ''plane'', confidence = 0.9, cx = 50, cy = 100,
         width = 40, height = 20, angle = 0 \<rparr>,
      \<lparr> classId = 0, className = ''plane'', confidence = 0.6, cx = 50, cy = 100,
         width = 40, height = 20, angle = 0 \<rparr>]
     \<lparr> tiePoint = \<lparr> xc = 50, yc = 100 \<rparr>, pixelScale = \<lparr> xc = 1, yc = 1 \<rparr>,
       epsg = Some 32654 \<rparr>
     0.5
   = [\<lparr> classId = 0, className = ''plane'', confidence = 0.6, cx = 50, cy = 100,
         width = 40, height = 20, angle = 0 \<rparr>]"
  by (simp add: mergeGeoTIFFDetections_def mergeStep_def toGeoDetection_def
      getOBBCorners_def pixelToGeo_def computePolygonIoU_def getAABBStep_def Let_def)

subsection \<open>The tile plan\<close>

lemma tileStride_eq: "tileStride tileSize = (3 * tileSize + 2) div 4"
proof -
  have "of_int tileSize * (1 - TILE_OVERLAP) + 1 / 2 = (of_int (3 * tileSize + 2) :: real) / of_int 4"
    by (simp add: TILE_OVERLAP_def field_simps)
  then have "jsRound (of_int tileSize * (1 - TILE_OVERLAP)) = \<lfloor>(of_int (3 * tileSize + 2) :: real) / of_int 4\<rfloor>"
    by (simp only: jsRound_def)
  also have "\<dots> = (3 * tileSize + 2) div 4"
    by (rule floor_divide_of_int_eq)
  finally show ?thesis by (simp add: tileStride_def)
qed

lemma tileStride_bounds:
  assumes "1 \<le> tileSize"
  shows "1 \<le> tileStride tileSize" and "tileStride tileSize \<le> tileSize"
  using assms by (simp_all add: tileStride_eq)

lemma tileCount_large:
  assumes "1 \<le> tileSize" and "tileSize \<le> imgDim"
  shows "1 \<le> tileCount tileSize imgDim"
    and "imgDim - tileSize \<le> (tileCount tileSize imgDim - 1) * tileStride tileSize"
proof -
  let ?s = "tileStride tileSize"
  let ?k = "\<lceil>of_int (imgDim - tileSize) / (of_int ?s :: real)\<rceil>"
  have s: "0 < ?s" using tileStride_bounds(1) [OF assms(1)] by simp
  have "0 \<le> of_int (imgDim - tileSize) / (of_int ?s :: real)"
    using assms(2) s by simp
  then have k0: "0 \<le> ?k" by (simp add: ceiling_le_iff[symmetric] le_ceiling_iff)
  then have cnt: "tileCount tileSize imgDim = ?k + 1"
    by (simp add: tileCount_def)
  show "1 \<le> tileCount tileSize imgDim" by (simp add: tileCount_def)
  have sr: "(0::real) < of_int ?s" using s by simp
  have "of_int (imgDim - tileSize) / (of_int ?s :: real) \<le> of_int ?k"
    by (rule le_of_int_ceiling)
  then have "(of_int (imgDim - tileSize) :: real) \<le> of_int ?k * of_int ?s"
    by (rule iffD1 [OF pos_divide_le_eq [OF sr]])
  then have "imgDim - tileSize \<le> ?k * ?s"
    by (metis of_int_le_iff of_int_mult)
  then show "imgDim - tileSize \<le> (tileCount tileSize imgDim - 1) * ?s"
    by (simp add: cnt)
qed

text \<open>The extent clamp never takes effect: the origin is at most the side minus the tile
  size, so every tile has the full tile size as its extent.\<close>

lemma tileExtent_full:
  "tileExtent tileSize imgDim (tileOrigin tileSize imgDim t) = tileSize"
  by (simp add: tileExtent_def tileOrigin_def)

lemma tileCount_ge_1: "1 \<le> tileCount tileSize imgDim"
  by (simp add: tileCount_def)

lemma tile_within:
  assumes "1 \<le> tileSize" and "tileSize \<le> imgDim" and "0 \<le> t"
  shows "0 \<le> tileOrigin tileSize imgDim t"
    and "tileOrigin tileSize imgDim t + tileExtent tileSize imgDim (tileOrigin tileSize imgDim t)
           \<le> imgDim"
proof -
  have s: "0 < tileStride tileSize" using tileStride_bounds(1) [OF assms(1)] by simp
  then have "0 \<le> t * tileStride tileSize" using assms(3) by simp
  then show "0 \<le> tileOrigin tileSize imgDim t"
    using assms(2) by (simp add: tileOrigin_def)
  show "tileOrigin tileSize imgDim t + tileExtent tileSize imgDim (tileOrigin tileSize imgDim t)
           \<le> imgDim"
    by (simp add: tileExtent_full) (simp add: tileOrigin_def)
qed

text \<open>On an axis shorter than the tile the origin is negative, whatever the tile index.\<close>

lemma tile_outside_short_axis:
  assumes "imgDim < tileSize"
  shows "tileOrigin tileSize imgDim t < 0"
  using assms by (simp add: tileOrigin_def min_def)

lemma tile_covers:
  assumes "1 \<le> tileSize" and "0 \<le> p" and "p < imgDim"
  shows "\<exists>t. 0 \<le> t \<and> t \<le> tileCount tileSize imgDim - 1
           \<and> tileOrigin tileSize imgDim t \<le> p
           \<and> p < tileOrigin tileSize imgDim t
                   + tileExtent tileSize imgDim (tileOrigin tileSize imgDim t)"
proof (cases "tileSize \<le> imgDim")
  case large: True
  let ?s = "tileStride tileSize"
  let ?k = "tileCount tileSize imgDim - 1"
  have s: "0 < ?s" and sT: "?s \<le> tileSize"
    using tileStride_bounds [OF assms(1)] by simp_all
  have k0: "0 \<le> ?k" and kk: "imgDim - tileSize \<le> ?k * ?s"
    using tileCount_large [OF assms(1) large] by simp_all
  let ?q = "p div ?s"
  have q0: "0 \<le> ?q" using assms(2) s by (simp add: pos_imp_zdiv_nonneg_iff)
  have dm: "?q * ?s + p mod ?s = p" by simp
  have m0: "0 \<le> p mod ?s" and m1: "p mod ?s < ?s" using s by simp_all
  have qlo: "?q * ?s \<le> p" using dm m0 by linarith
  have qhi: "p < ?q * ?s + ?s" using dm m1 by linarith
  show ?thesis
  proof (cases "?q \<le> ?k")
    case True
    have lo: "tileOrigin tileSize imgDim ?q \<le> p"
      using qlo by (simp add: tileOrigin_def)
    have hi: "p < tileOrigin tileSize imgDim ?q + tileSize"
      using qhi sT assms(3) by (simp add: tileOrigin_def min_def)
    show ?thesis using q0 True lo hi by (intro exI [of _ ?q]) (simp add: tileExtent_full)
  next
    case False
    then have "?k * ?s \<le> ?q * ?s" using s by (simp add: mult_right_mono)
    then have lo': "imgDim - tileSize \<le> p" using kk qlo by linarith
    have org: "tileOrigin tileSize imgDim ?k = imgDim - tileSize"
      using kk by (simp add: tileOrigin_def)
    have ext: "tileExtent tileSize imgDim (tileOrigin tileSize imgDim ?k) = tileSize"
      by (rule tileExtent_full)
    show ?thesis using k0 lo' assms(3) ext org by (intro exI [of _ ?k]) simp
  qed
next
  case small: False
  have org: "tileOrigin tileSize imgDim 0 = imgDim - tileSize"
    using small by (simp add: tileOrigin_def)
  have ext: "tileExtent tileSize imgDim (tileOrigin tileSize imgDim 0) = tileSize"
    by (rule tileExtent_full)
  show ?thesis
    using tileCount_ge_1 [of tileSize imgDim] small assms(2,3) ext org
    by (intro exI [of _ 0]) simp
qed

lemma set_tilePlan_sliced:
  assumes "SLICE_THRESHOLD < imgWidth \<or> SLICE_THRESHOLD < imgHeight"
  shows "set (tilePlan tileSize imgWidth imgHeight) =
           {sliceTile tileSize imgWidth imgHeight ty tx | ty tx.
              0 \<le> ty \<and> ty \<le> tileCount tileSize imgHeight - 1
            \<and> 0 \<le> tx \<and> tx \<le> tileCount tileSize imgWidth - 1}"
proof -
  have "\<not> (imgWidth \<le> SLICE_THRESHOLD \<and> imgHeight \<le> SLICE_THRESHOLD)"
    using assms by auto
  then have "tilePlan tileSize imgWidth imgHeight =
      concat (map (\<lambda>ty. map (\<lambda>tx. sliceTile tileSize imgWidth imgHeight ty tx)
                                 [0 .. tileCount tileSize imgWidth - 1])
                       [0 .. tileCount tileSize imgHeight - 1])"
    by (simp only: tilePlan_def if_False)
  then show ?thesis by (auto; blast)
qed

lemma tilePlan_large_image_within:
  assumes "1 \<le> tileSize" and "tileSize \<le> imgWidth" and "tileSize \<le> imgHeight"
    and "SLICE_THRESHOLD < imgWidth \<or> SLICE_THRESHOLD < imgHeight"
    and "tile \<in> set (tilePlan tileSize imgWidth imgHeight)"
  shows "0 \<le> sx tile \<and> sx tile + sw tile \<le> imgWidth
       \<and> 0 \<le> sy tile \<and> sy tile + sh tile \<le> imgHeight"
proof -
  obtain ty tx where t: "tile = sliceTile tileSize imgWidth imgHeight ty tx"
    and ty: "0 \<le> ty" and tx: "0 \<le> tx"
    using assms(5) unfolding set_tilePlan_sliced [OF assms(4)] by blast
  show ?thesis
    using tile_within [OF assms(1,2) tx] tile_within [OF assms(1,3) ty]
    by (simp add: t sliceTile_def Let_def)
qed

text \<open>The tiles of a sliced image cover it, whatever its sides.\<close>

lemma tilePlan_sliced_covers:
  assumes "1 \<le> tileSize"
    and "SLICE_THRESHOLD < imgWidth \<or> SLICE_THRESHOLD < imgHeight"
    and "0 \<le> x" and "x < imgWidth" and "0 \<le> y" and "y < imgHeight"
  shows "\<exists>tile \<in> set (tilePlan tileSize imgWidth imgHeight).
           sx tile \<le> x \<and> x < sx tile + sw tile \<and> sy tile \<le> y \<and> y < sy tile + sh tile"
proof -
  obtain tx where tx: "0 \<le> tx" "tx \<le> tileCount tileSize imgWidth - 1"
      "tileOrigin tileSize imgWidth tx \<le> x"
      "x < tileOrigin tileSize imgWidth tx
             + tileExtent tileSize imgWidth (tileOrigin tileSize imgWidth tx)"
    using tile_covers [OF assms(1,3,4)] by blast
  obtain ty where ty: "0 \<le> ty" "ty \<le> tileCount tileSize imgHeight - 1"
      "tileOrigin tileSize imgHeight ty \<le> y"
      "y < tileOrigin tileSize imgHeight ty
             + tileExtent tileSize imgHeight (tileOrigin tileSize imgHeight ty)"
    using tile_covers [OF assms(1,5,6)] by blast
  have "sliceTile tileSize imgWidth imgHeight ty tx \<in> set (tilePlan tileSize imgWidth imgHeight)"
    unfolding set_tilePlan_sliced [OF assms(2)] using tx(1,2) ty(1,2) by blast
  moreover have "sx (sliceTile tileSize imgWidth imgHeight ty tx) \<le> x
      \<and> x < sx (sliceTile tileSize imgWidth imgHeight ty tx)
              + sw (sliceTile tileSize imgWidth imgHeight ty tx)
      \<and> sy (sliceTile tileSize imgWidth imgHeight ty tx) \<le> y
      \<and> y < sy (sliceTile tileSize imgWidth imgHeight ty tx)
              + sh (sliceTile tileSize imgWidth imgHeight ty tx)"
    using tx(3,4) ty(3,4) by (simp add: sliceTile_def Let_def)
  ultimately show ?thesis by blast
qed

text \<open>Every tile of a sliced image with a side below the tile size starts outside it.\<close>

lemma tilePlan_short_side_outside:
  assumes "SLICE_THRESHOLD < imgWidth \<or> SLICE_THRESHOLD < imgHeight"
    and "imgHeight < tileSize"
    and "tile \<in> set (tilePlan tileSize imgWidth imgHeight)"
  shows "sy tile < 0 \<and> sh tile = tileSize"
proof -
  obtain ty tx where t: "tile = sliceTile tileSize imgWidth imgHeight ty tx"
    using assms(3) unfolding set_tilePlan_sliced [OF assms(1)] by blast
  show ?thesis
    using tile_outside_short_axis [OF assms(2), of ty]
    by (simp add: t sliceTile_def Let_def tileExtent_full)
qed

lemma tileStride_1024: "tileStride 1024 = 768"
  by (simp add: tileStride_eq)

lemma tileStride_512: "tileStride 512 = 384"
  by (simp add: tileStride_eq)

lemma tilePlan_small_image:
  assumes "imgWidth \<le> SLICE_THRESHOLD" and "imgHeight \<le> SLICE_THRESHOLD"
  shows "tilePlan tileSize imgWidth imgHeight = [\<lparr> sx = 0, sy = 0, sw = imgWidth, sh = imgHeight \<rparr>]"
  using assms by (simp add: tilePlan_def)

text \<open>
  Claim C1. The claim: for every image with a side above the slice threshold 1280, every
  tile of the plan lies within the image (origin at least 0, origin plus extent at most the
  side) and the tiles cover the image. Above, \<open>tilePlan_sliced_covers\<close> proves the cover for every
  sliced image and \<open>tilePlan_large_image_within\<close> proves that the tiles lie within the image
  when both sides are at least the tile size. An image with one side above the threshold and the other below the tile
  size gets tiles outside the image: for a 2000 x 500 image the plan at tile size 1024 is
  the three tiles below, each with row origin -524 and row extent 1024, and the plan at
  tile size 512 is the five tiles below, each with row origin -12 and row extent 512.
\<close>

theorem tilePlan_origin_outside_image:
  "tilePlan 1024 2000 500 =
     [\<lparr> sx = 0, sy = - 524, sw = 1024, sh = 1024 \<rparr>,
      \<lparr> sx = 768, sy = - 524, sw = 1024, sh = 1024 \<rparr>,
      \<lparr> sx = 976, sy = - 524, sw = 1024, sh = 1024 \<rparr>]
   \<and> tilePlan 512 2000 500 =
     [\<lparr> sx = 0, sy = - 12, sw = 512, sh = 512 \<rparr>,
      \<lparr> sx = 384, sy = - 12, sw = 512, sh = 512 \<rparr>,
      \<lparr> sx = 768, sy = - 12, sw = 512, sh = 512 \<rparr>,
      \<lparr> sx = 1152, sy = - 12, sw = 512, sh = 512 \<rparr>,
      \<lparr> sx = 1488, sy = - 12, sw = 512, sh = 512 \<rparr>]"
  by (simp add: tilePlan_def SLICE_THRESHOLD_def tileCount_def tileStride_1024 tileStride_512
      sliceTile_def tileOrigin_def tileExtent_def upto_rec1)

end
